theory Spec2Isabelle
  imports Complex_Main
begin

section \<open>The DataFrame handed to the statistics code\<close>

text \<open>
  \<open>analyze_data\<close> (main.py, lines 121-175) loads the whole \<open>records\<close> table into a
  pandas DataFrame and computes every statistic from that frame.  The frame is modelled
  as an ordered list of named columns.  A column carries its values together with the
  storage type (dtype) pandas gave it: int64, float64, object or datetime64, the dtypes
  that arise from the Integer, Float, String and DateTime columns of \<open>Record\<close>
  (models.py, lines 16-26).

  A float64 cell is a finite number, an infinity or NaN; NaN is the null of a float
  column.  An int64 column has no null.  A cell of an object or datetime column is
  \<open>None\<close> (null / NaT) or a value, identified with its \<open>str\<close> rendering, which is what
  the report shows.

  Two things the code leaves to its libraries are parameters of the model.  The first is
  float64 arithmetic: finite float64 numbers are idealised as reals, and where float64
  cannot carry out a computation that the reals can (the range of a column overflows, or
  is too narrow to be cut into distinct bin edges) numpy raises; whether it does is the
  parameter \<open>fits\<close>.  The second is the sort that \<open>value_counts\<close> uses, numpy's
  \<open>argsort\<close> of kind quicksort, which sorts but promises no order among equal keys; it
  is the parameter \<open>srt\<close>.

  The model ends with the value \<open>analyze_data\<close> returns or the exception it raises;
  the JSON encoding of that value by the web framework is not part of it.
\<close>

datatype double = Fin real | PInf | NInf | NaN

datatype dtype = Int64 | Float64 | Object | Datetime64

datatype series =
    IntSeries "int list"
  | FloatSeries "double list"
  | ObjectSeries "string option list"
  | DatetimeSeries "string option list"

record column =
  col_name :: string
  col_data :: series

type_synonym dataframe = "column list"

datatype error = HTTPException nat string | ValueError string | KeyError string

text \<open>The outcome of \<open>pd.read_sql_query(query, engine)\<close> (line 127).\<close>

datatype sql_result = QueryFailed | Loaded dataframe

fun dtype_of :: "series \<Rightarrow> dtype" where
  "dtype_of (IntSeries xs) = Int64"
| "dtype_of (FloatSeries xs) = Float64"
| "dtype_of (ObjectSeries xs) = Object"
| "dtype_of (DatetimeSeries xs) = Datetime64"

fun dtype_str :: "dtype \<Rightarrow> string" where
  "dtype_str Int64 = ''int64''"
| "dtype_str Float64 = ''float64''"
| "dtype_str Object = ''object''"
| "dtype_str Datetime64 = ''datetime64[ns]''"

fun series_len :: "series \<Rightarrow> nat" where
  "series_len (IntSeries xs) = length xs"
| "series_len (FloatSeries xs) = length xs"
| "series_len (ObjectSeries xs) = length xs"
| "series_len (DatetimeSeries xs) = length xs"

text \<open>\<open>len(df)\<close>: the length of the index, which every column shares.\<close>

definition df_len :: "dataframe \<Rightarrow> nat" where
  "df_len df = (case df of [] \<Rightarrow> 0 | c # cs \<Rightarrow> series_len (col_data c))"

text \<open>\<open>df[col]\<close>: the column labelled \<open>col\<close>; a missing label raises KeyError.\<close>

definition df_getitem :: "dataframe \<Rightarrow> string \<Rightarrow> error + series" where
  "df_getitem df col =
     (case find (\<lambda>c. col_name c = col) df of
        None \<Rightarrow> Inl (KeyError col)
      | Some c \<Rightarrow> Inr (col_data c))"

text \<open>
  The well-formed frames: column labels are unique (they are the column names of one
  SQL table) and all columns have the length of the index.
\<close>

definition wf_df :: "dataframe \<Rightarrow> bool" where
  "wf_df df =
     (distinct (map col_name df) \<and> list_all (\<lambda>c. series_len (col_data c) = df_len df) df)"

section \<open>The records table and its loading\<close>

text \<open>
  The table \<open>records\<close> as the store holds it: every column has the type declared in
  models.py and one cell per row, where \<open>None\<close> is SQL NULL.  A cell of a Float column
  that is not NULL may be NaN or an infinity.
\<close>

datatype sql_values =
    IntegerColumn "int option list"
  | FloatColumn "double option list"
  | StringColumn "string option list"
  | DateTimeColumn "string option list"

record sql_column =
  sql_name :: string
  sql_cells :: sql_values

type_synonym table = "sql_column list"

text \<open>The data source when the query of line 127 runs: out of reach, or holding a table.\<close>

datatype store = Unreachable | Records table

fun sql_len :: "sql_values \<Rightarrow> nat" where
  "sql_len (IntegerColumn cells) = length cells"
| "sql_len (FloatColumn cells) = length cells"
| "sql_len (StringColumn cells) = length cells"
| "sql_len (DateTimeColumn cells) = length cells"

definition table_rows :: "table \<Rightarrow> nat" where
  "table_rows t = (case t of [] \<Rightarrow> 0 | c # cs \<Rightarrow> sql_len (sql_cells c))"

definition wf_table :: "table \<Rightarrow> bool" where
  "wf_table t =
     (distinct (map sql_name t) \<and> list_all (\<lambda>c. sql_len (sql_cells c) = table_rows t) t)"

text \<open>
  \<open>pd.read_sql_query\<close> builds each column from the cells the query returned and lets
  pandas infer the dtype from them; the declared type is not consulted.  A column
  without any cell that is not NULL (an empty one included) stays an object column of
  \<open>None\<close>.  Integers become int64, or float64 with NaN for NULL when some cell is NULL;
  floats become float64 with NaN for NULL; strings stay object; timestamps become
  datetime64.
\<close>

fun infer_series :: "sql_values \<Rightarrow> series" where
  "infer_series (IntegerColumn cells) =
     (if list_all (\<lambda>x. x = None) cells then ObjectSeries (map (\<lambda>x. None) cells)
      else if list_all (\<lambda>x. x \<noteq> None) cells then IntSeries (map the cells)
      else FloatSeries (map (\<lambda>x. case x of None \<Rightarrow> NaN | Some i \<Rightarrow> Fin (real_of_int i)) cells))"
| "infer_series (FloatColumn cells) =
     (if list_all (\<lambda>x. x = None) cells then ObjectSeries (map (\<lambda>x. None) cells)
      else FloatSeries (map (\<lambda>x. case x of None \<Rightarrow> NaN | Some d \<Rightarrow> d) cells))"
| "infer_series (StringColumn cells) = ObjectSeries cells"
| "infer_series (DateTimeColumn cells) =
     (if list_all (\<lambda>x. x = None) cells then ObjectSeries (map (\<lambda>x. None) cells)
      else DatetimeSeries cells)"

definition to_frame :: "table \<Rightarrow> dataframe" where
  "to_frame t = map (\<lambda>c. \<lparr> col_name = sql_name c, col_data = infer_series (sql_cells c) \<rparr>) t"

definition read_sql_query :: "store \<Rightarrow> sql_result" where
  "read_sql_query s = (case s of Unreachable \<Rightarrow> QueryFailed | Records t \<Rightarrow> Loaded (to_frame t))"

section \<open>The body of analyze_data\<close>

subsection \<open>Python dictionaries\<close>

text \<open>
  A Python dict keeps insertion order; assigning to a key that is present replaces the
  value in place.
\<close>

type_synonym ('k, 'v) dict = "('k \<times> 'v) list"

fun dict_set :: "('k, 'v) dict \<Rightarrow> 'k \<Rightarrow> 'v \<Rightarrow> ('k, 'v) dict" where
  "dict_set [] k v = [(k, v)]"
| "dict_set ((k', v') # d) k v =
     (if k' = k then (k', v) # d else (k', v') # dict_set d k v)"

definition dict_of :: "('k \<times> 'v) list \<Rightarrow> ('k, 'v) dict" where
  "dict_of kvs = foldl (\<lambda>d (k, v). dict_set d k v) [] kvs"

definition dict_get :: "('k, 'v) dict \<Rightarrow> 'k \<Rightarrow> 'v option" where
  "dict_get d k = map_of d k"

subsection \<open>Classification and null counting\<close>

text \<open>
  \<open>df.select_dtypes(include=[np.number])\<close> keeps the columns whose dtype is a subtype of
  \<open>np.number\<close>, \<open>exclude=[np.number]\<close> the others (lines 132-133).
\<close>

definition is_number :: "dtype \<Rightarrow> bool" where
  "is_number d = (d = Int64 \<or> d = Float64)"

definition select_dtypes_include_number :: "dataframe \<Rightarrow> dataframe" where
  "select_dtypes_include_number df = filter (\<lambda>c. is_number (dtype_of (col_data c))) df"

definition select_dtypes_exclude_number :: "dataframe \<Rightarrow> dataframe" where
  "select_dtypes_exclude_number df = filter (\<lambda>c. \<not> is_number (dtype_of (col_data c))) df"

text \<open>\<open>df.isnull().sum()\<close> for one column (line 144).\<close>

fun isnull_sum :: "series \<Rightarrow> nat" where
  "isnull_sum (IntSeries xs) = 0"
| "isnull_sum (FloatSeries xs) = length (filter (\<lambda>x. x = NaN) xs)"
| "isnull_sum (ObjectSeries xs) = length (filter (\<lambda>x. x = None) xs)"
| "isnull_sum (DatetimeSeries xs) = length (filter (\<lambda>x. x = None) xs)"

text \<open>
  \<open>df[col].dropna()\<close> of a numeric column, as the float array numpy works on.  Only
  numeric columns reach it (line 151), so the last clause is never used.
\<close>

fun dropna_numeric :: "series \<Rightarrow> double list" where
  "dropna_numeric (IntSeries xs) = map (\<lambda>i. Fin (real_of_int i)) xs"
| "dropna_numeric (FloatSeries xs) = filter (\<lambda>x. x \<noteq> NaN) xs"
| "dropna_numeric _ = []"

text \<open>
  The non-null values of an object or datetime column.  Only those columns reach it
  (line 165), so the last clause is never used.
\<close>

fun dropna_object :: "series \<Rightarrow> string list" where
  "dropna_object (ObjectSeries xs) = map the (filter (\<lambda>x. x \<noteq> None) xs)"
| "dropna_object (DatetimeSeries xs) = map the (filter (\<lambda>x. x \<noteq> None) xs)"
| "dropna_object _ = []"

text \<open>The number of non-null cells of a column (\<open>Series.count()\<close>).\<close>

fun count_nonnull :: "series \<Rightarrow> nat" where
  "count_nonnull (IntSeries xs) = length xs"
| "count_nonnull (FloatSeries xs) = length (filter (\<lambda>x. x \<noteq> NaN) xs)"
| "count_nonnull (ObjectSeries xs) = length (filter (\<lambda>x. x \<noteq> None) xs)"
| "count_nonnull (DatetimeSeries xs) = length (filter (\<lambda>x. x \<noteq> None) xs)"

section \<open>numpy.histogram with ten equal-width bins\<close>

fun dmin :: "double \<Rightarrow> double \<Rightarrow> double" where
  "dmin NaN y = NaN"
| "dmin x NaN = NaN"
| "dmin NInf y = NInf"
| "dmin x NInf = NInf"
| "dmin PInf y = y"
| "dmin x PInf = x"
| "dmin (Fin a) (Fin b) = Fin (min a b)"

fun dmax :: "double \<Rightarrow> double \<Rightarrow> double" where
  "dmax NaN y = NaN"
| "dmax x NaN = NaN"
| "dmax PInf y = PInf"
| "dmax x PInf = PInf"
| "dmax NInf y = y"
| "dmax x NInf = x"
| "dmax (Fin a) (Fin b) = Fin (max a b)"

text \<open>
  \<open>_get_outer_edges\<close>: the range of an empty array is (0, 1); otherwise it is
  (a.min(), a.max()), which must be finite, and a range of width zero is widened by one
  half on each side.  The widening is computed in the reals; where float64 cannot
  represent the widened range the edges do not separate, which \<open>np_histogram\<close> reports.
\<close>

definition get_outer_edges :: "double list \<Rightarrow> error + real \<times> real" where
  "get_outer_edges a =
     (case a of
        [] \<Rightarrow> Inr (0, 1)
      | x # xs \<Rightarrow>
          (case (foldl dmin x xs, foldl dmax x xs) of
             (Fin first_edge, Fin last_edge) \<Rightarrow>
               if first_edge = last_edge then Inr (first_edge - 1 / 2, last_edge + 1 / 2)
               else Inr (first_edge, last_edge)
           | _ \<Rightarrow> Inl (ValueError ''autodetected range is not finite'')))"

text \<open>\<open>np.linspace(start, stop, num)\<close> with the end point included.\<close>

definition linspace :: "real \<Rightarrow> real \<Rightarrow> nat \<Rightarrow> real list" where
  "linspace start stop num =
     map (\<lambda>i. start + real i * ((stop - start) / real (num - 1))) [0..<num]"

text \<open>The finite values of an array whose range has been found finite.\<close>

fun finite_values :: "double list \<Rightarrow> real list" where
  "finite_values [] = []"
| "finite_values (Fin x # xs) = x # finite_values xs"
| "finite_values (_ # xs) = finite_values xs"

text \<open>
  The bin of one value: the scaled position is truncated to an index, the right-most
  edge goes to the last bin, and the index is then moved by one where the value lies
  below its left edge or at or above its right edge.  The value is at least
  \<open>first_edge\<close>, so the truncation is a floor and the index is never moved below zero.
\<close>

definition bin_index :: "real \<Rightarrow> real \<Rightarrow> nat \<Rightarrow> real list \<Rightarrow> real \<Rightarrow> nat" where
  "bin_index first_edge last_edge n_equal_bins bin_edges x =
     (let f_index = (x - first_edge) / (last_edge - first_edge) * real n_equal_bins;
          i0 = nat \<lfloor>f_index\<rfloor>;
          i1 = (if i0 = n_equal_bins then i0 - 1 else i0);
          i2 = (if x < bin_edges ! i1 then i1 - 1 else i1);
          i3 = (if bin_edges ! (i2 + 1) \<le> x \<and> i2 \<noteq> n_equal_bins - 1 then i2 + 1 else i2)
      in i3)"

text \<open>\<open>np.bincount(indices, minlength=n)\<close>.\<close>

definition bincount :: "nat list \<Rightarrow> nat \<Rightarrow> nat list" where
  "bincount indices minlength =
     map (count_list indices)
       [0..<max minlength (if indices = [] then 0 else Suc (fold max indices 0))]"

text \<open>
  The parameter \<open>fits\<close>: \<open>fits lo hi bins\<close> says that numpy, computing in float64 on data
  with minimum \<open>lo\<close> and maximum \<open>hi\<close>, obtains finite and strictly increasing bin
  edges, so that the test \<open>np.any(bin_edges[:-1] >= bin_edges[1:])\<close> of \<open>_get_bin_edges\<close>
  does not raise.  The edges of the empty array, those of (0, 1), always pass.
\<close>

definition float64_fits :: "(real \<Rightarrow> real \<Rightarrow> nat \<Rightarrow> bool) \<Rightarrow> real list \<Rightarrow> nat \<Rightarrow> bool" where
  "float64_fits fits xs bins =
     (case xs of [] \<Rightarrow> True | x # ys \<Rightarrow> fits (foldl min x ys) (foldl max x ys) bins)"

text \<open>
  \<open>np.histogram(a, bins)\<close> for a number of bins: the edges are equally spaced over the
  outer edges, the values within the range are given their bin and the bins are counted.
  The result is the pair of the counts and the edges.  It raises when the range is not
  finite and when float64 cannot separate the edges.
\<close>

definition np_histogram ::
  "(real \<Rightarrow> real \<Rightarrow> nat \<Rightarrow> bool) \<Rightarrow> double list \<Rightarrow> nat \<Rightarrow> error + nat list \<times> real list"
where
  "np_histogram fits a bins =
     (case get_outer_edges a of
        Inl e \<Rightarrow> Inl e
      | Inr (first_edge, last_edge) \<Rightarrow>
          if \<not> float64_fits fits (finite_values a) bins
          then Inl (ValueError ''Too many bins for data range'')
          else
          (let bin_edges = linspace first_edge last_edge (bins + 1);
               tmp_a = filter (\<lambda>x. first_edge \<le> x \<and> x \<le> last_edge) (finite_values a);
               indices = map (bin_index first_edge last_edge bins bin_edges) tmp_a
           in Inr (bincount indices bins, bin_edges)))"

section \<open>pandas reductions of a numeric column\<close>

text \<open>
  \<open>mean\<close>, \<open>median\<close>, \<open>std\<close>, \<open>min\<close> and \<open>max\<close> skip nulls; on no value they give NaN,
  and \<open>std\<close> (ddof = 1) gives NaN on fewer than two values.  They take the non-null
  values of the column.
\<close>

definition nanmean :: "real list \<Rightarrow> double" where
  "nanmean xs = (if xs = [] then NaN else Fin (sum_list xs / real (length xs)))"

definition nanmedian :: "real list \<Rightarrow> double" where
  "nanmedian xs =
     (if xs = [] then NaN
      else let s = sort xs; n = length xs in
        if odd n then Fin (s ! (n div 2))
        else Fin ((s ! (n div 2 - 1) + s ! (n div 2)) / 2))"

definition nanstd :: "real list \<Rightarrow> double" where
  "nanstd xs =
     (let n = length xs in
      if n \<le> 1 then NaN
      else let avg = sum_list xs / real n;
               sqr = sum_list (map (\<lambda>x. (x - avg)\<^sup>2) xs)
           in Fin (sqrt (sqr / real (n - 1))))"

definition nanmin :: "real list \<Rightarrow> double" where
  "nanmin xs = (case xs of [] \<Rightarrow> NaN | x # ys \<Rightarrow> Fin (foldl min x ys))"

definition nanmax :: "real list \<Rightarrow> double" where
  "nanmax xs = (case xs of [] \<Rightarrow> NaN | x # ys \<Rightarrow> Fin (foldl max x ys))"

section \<open>pandas value_counts and nunique\<close>

text \<open>
  \<open>value_counts\<close> counts the non-null values with a hash table, which keeps the keys in
  the order of their first occurrence, and then sorts the counts in descending order.
  pandas sorts descending by reversing, sorting ascending with numpy's \<open>argsort\<close> and
  reversing again.
\<close>

fun count_key :: "('k \<times> nat) list \<Rightarrow> 'k \<Rightarrow> ('k \<times> nat) list" where
  "count_key [] k = [(k, 1)]"
| "count_key ((k', n) # t) k =
     (if k' = k then (k', Suc n) # t else (k', n) # count_key t k)"

definition value_count :: "'k list \<Rightarrow> ('k \<times> nat) list" where
  "value_count xs = foldl count_key [] xs"

text \<open>
  What numpy promises of \<open>argsort\<close>: the result lists every index once, and the keys
  taken in that order ascend.  Nothing is promised about the order of equal keys.
\<close>

definition is_argsort :: "(nat list \<Rightarrow> nat list) \<Rightarrow> bool" where
  "is_argsort f =
     (\<forall>keys. distinct (f keys) \<and> set (f keys) = {0..<length keys}
              \<and> sorted (map (\<lambda>i. keys ! i) (f keys)))"

text \<open>The sorts that keep this promise; \<open>np_argsort srt keys\<close> applies one of them.\<close>

typedef argsort = "{f. is_argsort f}"
  morphisms np_argsort Abs_argsort
  by (rule exI [of _ "\<lambda>keys. sort_key (\<lambda>i. keys ! i) [0..<length keys]"])
     (simp add: is_argsort_def sorted_sort_key)

text \<open>
  \<open>Series.sort_values(ascending=False)\<close> through \<open>nargsort\<close>: the counts and their
  positions are reversed, the reversed counts are sorted ascending, and the resulting
  order of positions is reversed again.
\<close>

definition sort_values_descending :: "argsort \<Rightarrow> ('k \<times> nat) list \<Rightarrow> ('k \<times> nat) list" where
  "sort_values_descending srt kvs =
     (let items = map snd kvs;
          idx = [0..<length items];
          non_nans = rev items;
          non_nan_idx = rev idx;
          indexer = rev (map (\<lambda>i. non_nan_idx ! i) (np_argsort srt non_nans))
      in map (\<lambda>i. kvs ! i) indexer)"

definition value_counts :: "argsort \<Rightarrow> series \<Rightarrow> (string \<times> nat) list" where
  "value_counts srt s = sort_values_descending srt (value_count (dropna_object s))"

text \<open>\<open>Series.head(n)\<close>.\<close>

definition head :: "nat \<Rightarrow> 'a list \<Rightarrow> 'a list" where
  "head n xs = take n xs"

text \<open>\<open>Series.nunique()\<close>: the distinct values in order of first occurrence, nulls removed.\<close>

definition unique :: "'a list \<Rightarrow> 'a list" where
  "unique xs = foldl (\<lambda>acc x. if x \<in> set acc then acc else acc @ [x]) [] xs"

definition nunique :: "series \<Rightarrow> nat" where
  "nunique s = length (unique (dropna_object s))"

section \<open>The report of analyze_data\<close>

record basic_info =
  total_rows :: nat
  total_columns :: nat
  numeric_columns :: nat
  categorical_columns :: nat
  columns :: "string list"

record numeric_stat =
  mean :: double
  median :: double
  std :: double
  min' :: double
  max' :: double
  histogram_bins :: "real list"
  histogram_values :: "nat list"

record categorical_stat =
  value_counts_dict :: "(string, nat) dict"
  unique_values :: nat
  labels :: "string list"
  values' :: "nat list"

record report =
  basic_info :: basic_info
  column_types :: "(string, string) dict"
  missing_values :: "(string, nat) dict"
  numeric_stats :: "(string, numeric_stat) dict"
  categorical_stats :: "(string, categorical_stat) dict"

text \<open>
  The body of the loop over the numeric columns (lines 152-161).  \<open>np.histogram\<close> runs
  first; the statistics of lines 154-158 are reached only when it has accepted the
  column, hence when every non-null value is finite, and are computed on those values.
\<close>

definition numeric_entry :: "(real \<Rightarrow> real \<Rightarrow> nat \<Rightarrow> bool) \<Rightarrow> series \<Rightarrow> error + numeric_stat" where
  "numeric_entry fits s =
     (case np_histogram fits (dropna_numeric s) 10 of
        Inl e \<Rightarrow> Inl e
      | Inr (hist_values, bin_edges) \<Rightarrow>
          (let xs = finite_values (dropna_numeric s) in
           Inr \<lparr> mean = nanmean xs,
                 median = nanmedian xs,
                 std = nanstd xs,
                 min' = nanmin xs,
                 max' = nanmax xs,
                 histogram_bins = bin_edges,
                 histogram_values = hist_values \<rparr>))"

text \<open>The body of the loop over the categorical columns (lines 166-172).\<close>

definition categorical_entry :: "argsort \<Rightarrow> series \<Rightarrow> categorical_stat" where
  "categorical_entry srt s =
     (let vc = head 10 (value_counts srt s) in
      \<lparr> value_counts_dict = dict_of vc,
        unique_values = nunique s,
        labels = map fst vc,
        values' = map snd vc \<rparr>)"

text \<open>
  \<open>for col in cols: d[col] = f(df[col])\<close>: the loops of lines 143, 151 and 165.  An
  exception raised by \<open>df[col]\<close> or by \<open>f\<close> ends the loop and is the result.
\<close>

fun for_columns ::
  "dataframe \<Rightarrow> (series \<Rightarrow> error + 'v) \<Rightarrow> string list \<Rightarrow> (string, 'v) dict \<Rightarrow> error + (string, 'v) dict"
where
  "for_columns df f [] d = Inr d"
| "for_columns df f (col # cols) d =
     (case df_getitem df col of
        Inl e \<Rightarrow> Inl e
      | Inr s \<Rightarrow>
          (case f s of
             Inl e \<Rightarrow> Inl e
           | Inr v \<Rightarrow> for_columns df f cols (dict_set d col v)))"

text \<open>
  \<open>analyze_data\<close>, applied to the outcome of \<open>pd.read_sql_query\<close> (lines 125-130): a
  failed query becomes the HTTP error, a frame is summarised by lines 132-175.
\<close>

definition analyze_data ::
  "(real \<Rightarrow> real \<Rightarrow> nat \<Rightarrow> bool) \<Rightarrow> argsort \<Rightarrow> sql_result \<Rightarrow> error + report"
where
  "analyze_data fits srt q =
     (case q of
        QueryFailed \<Rightarrow> Inl (HTTPException 500 ''Database query failed'')
      | Loaded df \<Rightarrow>
          (let numeric_cols = map col_name (select_dtypes_include_number df);
               categorical_cols = map col_name (select_dtypes_exclude_number df);
               info = \<lparr> total_rows = df_len df,
                        total_columns = length (map col_name df),
                        numeric_columns = length numeric_cols,
                        categorical_columns = length categorical_cols,
                        columns = map col_name df \<rparr>
           in
           case for_columns df (\<lambda>s. Inr (dtype_str (dtype_of s))) (map col_name df) [] of
             Inl e \<Rightarrow> Inl e
           | Inr types \<Rightarrow>
               (let missing = dict_of (map (\<lambda>c. (col_name c, isnull_sum (col_data c))) df) in
                case (if length numeric_cols > 0
                      then for_columns df (numeric_entry fits) numeric_cols []
                      else Inr []) of
                  Inl e \<Rightarrow> Inl e
                | Inr nstats \<Rightarrow>
                    (case (if length categorical_cols > 0
                           then for_columns df (\<lambda>s. Inr (categorical_entry srt s)) categorical_cols []
                           else Inr []) of
                       Inl e \<Rightarrow> Inl e
                     | Inr cstats \<Rightarrow>
                         Inr \<lparr> basic_info = info,
                               column_types = types,
                               missing_values = missing,
                               numeric_stats = nstats,
                               categorical_stats = cstats \<rparr>))))"

section \<open>Specification-side notions\<close>

text \<open>\<open>np.isfinite\<close>.\<close>

fun isfinite :: "double \<Rightarrow> bool" where
  "isfinite (Fin x) = True"
| "isfinite _ = False"

text \<open>A numeric column none of whose non-null values is infinite.\<close>

definition finite_column :: "column \<Rightarrow> bool" where
  "finite_column c = list_all isfinite (dropna_numeric (col_data c))"

text \<open>
  The columns \<open>np.histogram\<close> accepts: no non-null value is infinite, and float64
  separates the edges over the range of the values.
\<close>

definition histogram_accepts :: "(real \<Rightarrow> real \<Rightarrow> nat \<Rightarrow> bool) \<Rightarrow> column \<Rightarrow> bool" where
  "histogram_accepts fits c =
     (finite_column c \<and> float64_fits fits (finite_values (dropna_numeric (col_data c))) 10)"

text \<open>
  The range the documentation of \<open>np.histogram\<close> gives for the bins of the values
  \<open>xs\<close>: (0, 1) for no value, otherwise from the minimum to the maximum, widened by one
  half on each side when the two are equal.
\<close>

definition outer_edges :: "real list \<Rightarrow> real \<times> real" where
  "outer_edges xs =
     (if xs = [] then (0, 1)
      else if Min (set xs) = Max (set xs) then (Min (set xs) - 1 / 2, Max (set xs) + 1 / 2)
      else (Min (set xs), Max (set xs)))"


text \<open>
  The report of lines 135-172 for a frame, given the dictionary the loop over the numeric
  columns built.
\<close>

definition report_of :: "argsort \<Rightarrow> dataframe \<Rightarrow> (string, numeric_stat) dict \<Rightarrow> report" where
  "report_of srt df nstats =
     \<lparr> basic_info =
         \<lparr> total_rows = df_len df,
           total_columns = length df,
           numeric_columns = length (select_dtypes_include_number df),
           categorical_columns = length (select_dtypes_exclude_number df),
           columns = map col_name df \<rparr>,
       column_types = map (\<lambda>c. (col_name c, dtype_str (dtype_of (col_data c)))) df,
       missing_values = map (\<lambda>c. (col_name c, isnull_sum (col_data c))) df,
       numeric_stats = nstats,
       categorical_stats =
         map (\<lambda>c. (col_name c, categorical_entry srt (col_data c)))
           (select_dtypes_exclude_number df) \<rparr>"

text \<open>A report that lists every column of the frame under each of its keys.\<close>

definition complete_report :: "dataframe \<Rightarrow> report \<Rightarrow> bool" where
  "complete_report df rep =
     (columns (basic_info rep) = map col_name df
      \<and> map fst (column_types rep) = map col_name df
      \<and> map fst (missing_values rep) = map col_name df
      \<and> map fst (numeric_stats rep) = map col_name (select_dtypes_include_number df)
      \<and> map fst (categorical_stats rep) = map col_name (select_dtypes_exclude_number df))"

text \<open>
  The columns of a table that are loaded with a numeric dtype: declared Integer or
  Float, with at least one cell that is not NULL.
\<close>

fun sql_numeric :: "sql_values \<Rightarrow> bool" where
  "sql_numeric (IntegerColumn cells) = (\<exists>x\<in>set cells. x \<noteq> None)"
| "sql_numeric (FloatColumn cells) = (\<exists>x\<in>set cells. x \<noteq> None)"
| "sql_numeric (StringColumn cells) = False"
| "sql_numeric (DateTimeColumn cells) = False"

text \<open>The entry of a numeric column without any non-null value.\<close>

definition empty_numeric_stat :: numeric_stat where
  "empty_numeric_stat =
     \<lparr> mean = NaN, median = NaN, std = NaN, min' = NaN, max' = NaN,
       histogram_bins = linspace 0 1 11,
       histogram_values = replicate 10 0 \<rparr>"

text \<open>The entry of a categorical column without any non-null value.\<close>

definition empty_categorical_stat :: categorical_stat where
  "empty_categorical_stat =
     \<lparr> value_counts_dict = [], unique_values = 0, labels = [], values' = [] \<rparr>"


section \<open>Instances of the parameters and example data\<close>

text \<open>
  A cautious float64 behaviour for the examples.  It lets pass only ranges over values
  of size at most a million that are of width zero or at least one, with at most a
  hundred bins: float64 does cut each of them into distinct edges.  On the example data
  below it agrees with numpy: it lets pass every column but the one of \<open>wide_table\<close>,
  whose range numpy cannot divide either.
\<close>

definition moderate_range :: "real \<Rightarrow> real \<Rightarrow> nat \<Rightarrow> bool" where
  "moderate_range lo hi bins =
     (- 1000000 \<le> lo \<and> hi \<le> 1000000 \<and> (lo = hi \<or> 1 \<le> hi - lo) \<and> 0 < bins \<and> bins \<le> 100)"

text \<open>Two sorts that keep the promise of \<open>argsort\<close>: one leaves equal keys in their
  order, the other turns them round.\<close>

definition stable_sort :: "nat list \<Rightarrow> nat list" where
  "stable_sort keys = sort_key (\<lambda>i. keys ! i) [0..<length keys]"

definition reversing_sort :: "nat list \<Rightarrow> nat list" where
  "reversing_sort keys = sort_key (\<lambda>i. keys ! i) (rev [0..<length keys])"

text \<open>
  A frame of five rows holding the two example columns of the specification: a float
  column with one null and a string column.
\<close>

definition example_df :: dataframe where
  "example_df =
     [\<lparr> col_name = ''age'', col_data = FloatSeries [Fin 20, Fin 30, Fin 30, Fin 40, NaN] \<rparr>,
      \<lparr> col_name = ''dept'',
        col_data = ObjectSeries [Some ''A'', Some ''B'', Some ''A'', Some ''A'', Some ''C''] \<rparr>]"




text \<open>
  A frame with a string column whose values have the counts 3, 2 and 1, and one null.
\<close>

definition ranked_df :: dataframe where
  "ranked_df =
     [\<lparr> col_name = ''dept'',
        col_data = ObjectSeries [Some ''A'', None, Some ''B'', Some ''A'', Some ''A'', Some ''B'',
                                 Some ''C''] \<rparr>]"

text \<open>
  A frame with a string column of eighteen distinct values: sixteen occur once, and the
  last two to appear, \<open>k16\<close> and then \<open>k17\<close>, occur twice.
\<close>

definition tie_df :: dataframe where
  "tie_df =
     [\<lparr> col_name = ''dept'',
        col_data = ObjectSeries [Some ''k00'', Some ''k01'', Some ''k02'', Some ''k03'', Some ''k04'',
                                 Some ''k05'', Some ''k06'', Some ''k07'', Some ''k08'', Some ''k09'',
                                 Some ''k10'', Some ''k11'', Some ''k12'', Some ''k13'', Some ''k14'',
                                 Some ''k15'', Some ''k16'', Some ''k17'', Some ''k16'', Some ''k17''] \<rparr>]"

text \<open>
  A table of three rows: an Integer column with a NULL, a Float column, a String column
  of numerals and an Integer column holding NULL only.
\<close>

definition mixed_table :: table where
  "mixed_table =
     [\<lparr> sql_name = ''age'', sql_cells = IntegerColumn [Some 20, None, Some 40] \<rparr>,
      \<lparr> sql_name = ''salary'', sql_cells = FloatColumn [Some (Fin 1000), Some (Fin 2000), Some (Fin 3000)] \<rparr>,
      \<lparr> sql_name = ''code'', sql_cells = StringColumn [Some ''1'', Some ''2'', Some ''3''] \<rparr>,
      \<lparr> sql_name = ''experience'', sql_cells = IntegerColumn [None, None, None] \<rparr>]"

text \<open>A table of two rows whose Integer column holds NULL only.\<close>

definition null_experience_table :: table where
  "null_experience_table =
     [\<lparr> sql_name = ''name'', sql_cells = StringColumn [Some ''ann'', Some ''bob''] \<rparr>,
      \<lparr> sql_name = ''experience'', sql_cells = IntegerColumn [None, None] \<rparr>]"

text \<open>The table \<open>records\<close> of models.py without any row.\<close>

definition empty_records :: table where
  "empty_records =
     [\<lparr> sql_name = ''id'', sql_cells = IntegerColumn [] \<rparr>,
      \<lparr> sql_name = ''name'', sql_cells = StringColumn [] \<rparr>,
      \<lparr> sql_name = ''age'', sql_cells = IntegerColumn [] \<rparr>,
      \<lparr> sql_name = ''salary'', sql_cells = FloatColumn [] \<rparr>,
      \<lparr> sql_name = ''department'', sql_cells = StringColumn [] \<rparr>,
      \<lparr> sql_name = ''experience'', sql_cells = IntegerColumn [] \<rparr>,
      \<lparr> sql_name = ''created_at'', sql_cells = DateTimeColumn [] \<rparr>,
      \<lparr> sql_name = ''updated_at'', sql_cells = DateTimeColumn [] \<rparr>]"

text \<open>A table of one row with an infinite salary.\<close>

definition inf_table :: table where
  "inf_table =
     [\<lparr> sql_name = ''name'', sql_cells = StringColumn [Some ''ann''] \<rparr>,
      \<lparr> sql_name = ''salary'', sql_cells = FloatColumn [Some PInf] \<rparr>]"

text \<open>
  A table of two rows whose salaries are finite and lie so far apart that their
  difference exceeds the largest float64.
\<close>

definition wide_table :: table where
  "wide_table =
     [\<lparr> sql_name = ''salary'',
        sql_cells = FloatColumn [Some (Fin (- (10 ^ 308))), Some (Fin (10 ^ 308))] \<rparr>]"

text \<open>A table of two rows with a Float column holding NaN only, beside an Integer column.\<close>

definition nan_table :: table where
  "nan_table =
     [\<lparr> sql_name = ''bonus'', sql_cells = FloatColumn [Some NaN, Some NaN] \<rparr>,
      \<lparr> sql_name = ''age'', sql_cells = IntegerColumn [Some 20, Some 30] \<rparr>]"

text \<open>The same Float column beside a Float column holding an infinite value.\<close>

definition nan_inf_table :: table where
  "nan_inf_table =
     [\<lparr> sql_name = ''bonus'', sql_cells = FloatColumn [Some NaN, Some NaN] \<rparr>,
      \<lparr> sql_name = ''salary'', sql_cells = FloatColumn [Some PInf, Some (Fin 1)] \<rparr>]"

section \<open>Dictionaries and the column loops\<close>

lemma dict_set_fresh: "k \<notin> fst ` set d \<Longrightarrow> dict_set d k v = d @ [(k, v)]"
  by (induction d) auto

lemma foldl_dict_set_distinct:
  "distinct (map fst (d @ kvs)) \<Longrightarrow> foldl (\<lambda>d (k, v). dict_set d k v) d kvs = d @ kvs"
proof (induction kvs arbitrary: d)
  case Nil
  then show ?case by simp
next
  case (Cons kv kvs)
  obtain k v where kv: "kv = (k, v)" by (cases kv)
  from Cons.prems have fresh: "k \<notin> fst ` set d" by (auto simp: kv)
  from Cons.prems have "distinct (map fst ((d @ [(k, v)]) @ kvs))" by (simp add: kv)
  from Cons.IH [OF this] show ?case by (simp add: kv dict_set_fresh [OF fresh])
qed

lemma dict_of_distinct: "distinct (map fst kvs) \<Longrightarrow> dict_of kvs = kvs"
  using foldl_dict_set_distinct [of "[]" kvs] by (simp add: dict_of_def)

lemma find_col_name:
  "distinct (map col_name df) \<Longrightarrow> c \<in> set df \<Longrightarrow> find (\<lambda>c'. col_name c' = col_name c) df = Some c"
  by (induction df) (auto simp: image_iff)

lemma df_getitem_member:
  "distinct (map col_name df) \<Longrightarrow> c \<in> set df \<Longrightarrow> df_getitem df (col_name c) = Inr (col_data c)"
  by (simp add: df_getitem_def find_col_name)

lemma for_columns_Inr:
  assumes df: "distinct (map col_name df)"
  shows "set cs \<subseteq> set df \<Longrightarrow> distinct (map fst d @ map col_name cs)
    \<Longrightarrow> \<forall>c\<in>set cs. \<exists>v. f (col_data c) = Inr v
    \<Longrightarrow> for_columns df f (map col_name cs) d
        = Inr (d @ map (\<lambda>c. (col_name c, projr (f (col_data c)))) cs)"
proof (induction cs arbitrary: d)
  case Nil
  then show ?case by simp
next
  case (Cons c cs)
  from Cons.prems obtain v where v: "f (col_data c) = Inr v" by auto
  from Cons.prems have c: "c \<in> set df" by simp
  from Cons.prems have fresh: "col_name c \<notin> fst ` set d" by auto
  have "for_columns df f (map col_name cs) (d @ [(col_name c, v)])
        = Inr ((d @ [(col_name c, v)]) @ map (\<lambda>c. (col_name c, projr (f (col_data c)))) cs)"
    using Cons.prems by (intro Cons.IH) auto
  then show ?case
    by (simp add: df_getitem_member [OF df c] v dict_set_fresh [OF fresh])
qed

lemma for_columns_Inr_D:
  assumes df: "distinct (map col_name df)"
  shows "set cs \<subseteq> set df \<Longrightarrow> for_columns df f (map col_name cs) d = Inr r
    \<Longrightarrow> c \<in> set cs \<Longrightarrow> \<exists>v. f (col_data c) = Inr v"
proof (induction cs arbitrary: d)
  case Nil
  then show ?case by simp
next
  case (Cons a cs)
  from Cons.prems have a: "a \<in> set df" by simp
  from Cons.prems(2) obtain v where v: "f (col_data a) = Inr v"
    and rest: "for_columns df f (map col_name cs) (dict_set d (col_name a) v) = Inr r"
    by (auto simp: df_getitem_member [OF df a] split: sum.splits)
  show ?case
  proof (cases "c = a")
    case True
    with v show ?thesis by auto
  next
    case False
    with Cons.prems have "c \<in> set cs" by simp
    from Cons.IH [OF _ rest this] Cons.prems(1) show ?thesis by simp
  qed
qed

lemma select_include_subset: "set (select_dtypes_include_number df) \<subseteq> set df"
  by (simp add: select_dtypes_include_number_def)

lemma select_exclude_subset: "set (select_dtypes_exclude_number df) \<subseteq> set df"
  by (simp add: select_dtypes_exclude_number_def)

lemma distinct_select_include:
  "distinct (map col_name df) \<Longrightarrow> distinct (map col_name (select_dtypes_include_number df))"
  by (simp add: select_dtypes_include_number_def distinct_map_filter)

lemma distinct_select_exclude:
  "distinct (map col_name df) \<Longrightarrow> distinct (map col_name (select_dtypes_exclude_number df))"
  by (simp add: select_dtypes_exclude_number_def distinct_map_filter)

lemma column_types_loop:
  assumes "distinct (map col_name df)"
  shows "for_columns df (\<lambda>s. Inr (dtype_str (dtype_of s))) (map col_name df) []
         = Inr (map (\<lambda>c. (col_name c, dtype_str (dtype_of (col_data c)))) df)"
  using for_columns_Inr [OF assms, of df "[]" "\<lambda>s. Inr (dtype_str (dtype_of s))"] assms
  by simp

lemma categorical_loop:
  assumes "distinct (map col_name df)"
  shows "for_columns df (\<lambda>s. Inr (categorical_entry srt s)) (map col_name (select_dtypes_exclude_number df)) []
         = Inr (map (\<lambda>c. (col_name c, categorical_entry srt (col_data c))) (select_dtypes_exclude_number df))"
  using for_columns_Inr [OF assms select_exclude_subset, of "[]" "\<lambda>s. Inr (categorical_entry srt s)"]
    distinct_select_exclude [OF assms]
  by simp

lemma missing_values_dict:
  assumes "distinct (map col_name df)"
  shows "dict_of (map (\<lambda>c. (col_name c, isnull_sum (col_data c))) df)
         = map (\<lambda>c. (col_name c, isnull_sum (col_data c))) df"
  using assms by (intro dict_of_distinct) (simp add: comp_def)

lemma analyze_data_Loaded:
  assumes "distinct (map col_name df)"
  shows "analyze_data fits srt (Loaded df) =
     (case for_columns df (numeric_entry fits) (map col_name (select_dtypes_include_number df)) [] of
        Inl e \<Rightarrow> Inl e
      | Inr nstats \<Rightarrow> Inr (report_of srt df nstats))"
  by (simp add: analyze_data_def Let_def column_types_loop [OF assms] categorical_loop [OF assms]
      missing_values_dict [OF assms] report_of_def split: sum.splits)

section \<open>The histogram\<close>


lemma nth_linspace:
  "i \<le> n \<Longrightarrow> linspace start stop (Suc n) ! i = start + real i * ((stop - start) / real n)"
  unfolding linspace_def by (simp del: upt_Suc)

lemma bin_index_floor:
  assumes w: "lo < hi" and n: "0 < n" and x: "lo \<le> x" "x \<le> hi"
  shows "bin_index lo hi n (linspace lo hi (Suc n)) x
         = min (nat \<lfloor>(x - lo) / (hi - lo) * real n\<rfloor>) (n - 1)"
proof -
  define t where "t = (x - lo) / (hi - lo) * real n"
  have t0: "0 \<le> t" using w x n by (simp add: t_def)
  have "(x - lo) / (hi - lo) \<le> 1" using w x by simp
  then have "(x - lo) / (hi - lo) * real n \<le> 1 * real n"
    by (intro mult_right_mono) simp_all
  then have tn: "t \<le> real n" by (simp add: t_def)
  define s where "s = (hi - lo) / real n"
  have step: "0 < s" using w n by (simp add: s_def)
  have xt: "x = lo + t * s" using w n by (simp add: t_def s_def field_simps)
  define i0 where "i0 = nat \<lfloor>t\<rfloor>"
  have i0t: "real i0 \<le> t" using t0 by (simp add: i0_def)
  have ti0: "t < real i0 + 1" using t0 by (simp add: i0_def)
  have i0n: "i0 \<le> n" using tn i0t by linarith
  define i1 where "i1 = (if i0 = n then i0 - 1 else i0)"
  have i1n: "i1 < n" using i0n n by (auto simp: i1_def)
  have i1t: "real i1 \<le> t" using i0t by (auto simp: i1_def)
  have e1: "linspace lo hi (Suc n) ! i1 = lo + real i1 * s"
    using i1n by (simp add: nth_linspace s_def)
  have e2: "linspace lo hi (Suc n) ! (i1 + 1) = lo + real (i1 + 1) * s"
    using i1n by (simp add: nth_linspace s_def del: of_nat_add of_nat_Suc)
  have "real i1 * s \<le> t * s" using i1t step by (intro mult_right_mono) simp_all
  then have nodec: "\<not> x < linspace lo hi (Suc n) ! i1"
    unfolding e1 xt by simp
  have noinc: "\<not> (linspace lo hi (Suc n) ! (i1 + 1) \<le> x \<and> i1 \<noteq> n - 1)"
  proof
    assume a: "linspace lo hi (Suc n) ! (i1 + 1) \<le> x \<and> i1 \<noteq> n - 1"
    then have "i0 \<noteq> n" by (auto simp: i1_def)
    then have "i1 = i0" by (simp add: i1_def)
    with ti0 have "t < real (i1 + 1)" by simp
    then have "t * s < real (i1 + 1) * s"
      using step by (simp only: mult_less_cancel_right_pos)
    with a xt e2 show False by linarith
  qed
  have "i1 = min i0 (n - 1)" using i0n n by (auto simp: i1_def)
  moreover have "bin_index lo hi n (linspace lo hi (Suc n)) x = i1"
    unfolding bin_index_def Let_def t_def [symmetric] i0_def [symmetric] i1_def [symmetric]
    using nodec noinc by simp
  ultimately show ?thesis by (simp add: i0_def t_def)
qed





lemma foldl_min_Min: "foldl min (x::real) xs = Min (set (x # xs))"
proof -
  have "(\<lambda>a s. min s a) = (min :: real \<Rightarrow> real \<Rightarrow> real)" by (intro ext) (rule min.commute)
  then show ?thesis by (simp add: Min.set_eq_fold [symmetric] foldl_conv_fold)
qed

lemma foldl_max_Max: "foldl max (x::real) xs = Max (set (x # xs))"
proof -
  have "(\<lambda>a s. max s a) = (max :: real \<Rightarrow> real \<Rightarrow> real)" by (intro ext) (rule max.commute)
  then show ?thesis by (simp add: Max.set_eq_fold [symmetric] foldl_conv_fold)
qed

lemma foldl_dmin_Fin: "foldl dmin (Fin x) (map Fin xs) = Fin (foldl min x xs)"
  by (induction xs arbitrary: x) simp_all

lemma foldl_dmax_Fin: "foldl dmax (Fin x) (map Fin xs) = Fin (foldl max x xs)"
  by (induction xs arbitrary: x) simp_all

lemma map_Fin_finite_values: "list_all isfinite a \<Longrightarrow> map Fin (finite_values a) = a"
  by (induction a rule: finite_values.induct) simp_all


lemma dmin_absorb: "acc = NaN \<or> acc = NInf \<Longrightarrow> dmin acc y = NaN \<or> dmin acc y = NInf"
  by (cases y) auto

lemma dmax_absorb: "acc = NaN \<or> acc = PInf \<Longrightarrow> dmax acc y = NaN \<or> dmax acc y = PInf"
  by (cases y) auto

lemma foldl_dmin_absorb:
  "acc = NaN \<or> acc = NInf \<Longrightarrow> foldl dmin acc xs = NaN \<or> foldl dmin acc xs = NInf"
  by (induction xs arbitrary: acc) (simp_all add: dmin_absorb)

lemma foldl_dmax_absorb:
  "acc = NaN \<or> acc = PInf \<Longrightarrow> foldl dmax acc xs = NaN \<or> foldl dmax acc xs = PInf"
  by (induction xs arbitrary: acc) (simp_all add: dmax_absorb)

lemma dmin_bad: "y = NaN \<or> y = NInf \<Longrightarrow> dmin acc y = NaN \<or> dmin acc y = NInf"
  by (cases acc) auto

lemma dmax_bad: "y = NaN \<or> y = PInf \<Longrightarrow> dmax acc y = NaN \<or> dmax acc y = PInf"
  by (cases acc) auto

lemma foldl_dmin_bad:
  "y \<in> set xs \<Longrightarrow> y = NaN \<or> y = NInf \<Longrightarrow> foldl dmin acc xs = NaN \<or> foldl dmin acc xs = NInf"
proof (induction xs arbitrary: acc)
  case Nil
  then show ?case by simp
next
  case (Cons x xs)
  show ?case
  proof (cases "y = x")
    case True
    with Cons.prems(2) have "dmin acc x = NaN \<or> dmin acc x = NInf" by (simp add: dmin_bad)
    then show ?thesis by (simp add: foldl_dmin_absorb)
  next
    case False
    with Cons.prems have "y \<in> set xs" by simp
    from Cons.IH [OF this Cons.prems(2)] show ?thesis by simp
  qed
qed

lemma foldl_dmax_bad:
  "y \<in> set xs \<Longrightarrow> y = NaN \<or> y = PInf \<Longrightarrow> foldl dmax acc xs = NaN \<or> foldl dmax acc xs = PInf"
proof (induction xs arbitrary: acc)
  case Nil
  then show ?case by simp
next
  case (Cons x xs)
  show ?case
  proof (cases "y = x")
    case True
    with Cons.prems(2) have "dmax acc x = NaN \<or> dmax acc x = PInf" by (simp add: dmax_bad)
    then show ?thesis by (simp add: foldl_dmax_absorb)
  next
    case False
    with Cons.prems have "y \<in> set xs" by simp
    from Cons.IH [OF this Cons.prems(2)] show ?thesis by simp
  qed
qed

lemma range_not_finite:
  assumes "\<not> list_all isfinite (x # xs)"
  shows "\<not> (isfinite (foldl dmin x xs) \<and> isfinite (foldl dmax x xs))"
proof -
  from assms obtain y where y: "y \<in> set (x # xs)" "\<not> isfinite y"
    by (auto simp: list_all_iff)
  from y(2) consider "y = NaN \<or> y = NInf" | "y = PInf" by (cases y) auto
  then show ?thesis
  proof cases
    case 1
    have "foldl dmin x xs = NaN \<or> foldl dmin x xs = NInf"
    proof (cases "y = x")
      case True
      with 1 show ?thesis by (simp add: foldl_dmin_absorb)
    next
      case False
      with y have "y \<in> set xs" by simp
      from foldl_dmin_bad [OF this 1] show ?thesis .
    qed
    then show ?thesis by auto
  next
    case 2
    have "foldl dmax x xs = NaN \<or> foldl dmax x xs = PInf"
    proof (cases "y = x")
      case True
      with 2 show ?thesis by (simp add: foldl_dmax_absorb)
    next
      case False
      with y have "y \<in> set xs" by simp
      from foldl_dmax_bad [OF this] 2 show ?thesis by simp
    qed
    then show ?thesis by auto
  qed
qed

lemma get_outer_edges_finite:
  assumes "list_all isfinite a"
  shows "get_outer_edges a = Inr (outer_edges (finite_values a))"
proof (cases "finite_values a")
  case Nil
  with map_Fin_finite_values [OF assms] have "a = []" by simp
  then show ?thesis by (simp add: get_outer_edges_def outer_edges_def)
next
  case (Cons x xs)
  with map_Fin_finite_values [OF assms] have a: "a = Fin x # map Fin xs" by simp
  show ?thesis
    unfolding Cons unfolding a
    by (simp add: get_outer_edges_def outer_edges_def foldl_dmin_Fin foldl_dmax_Fin
        foldl_min_Min foldl_max_Max)
qed

lemma get_outer_edges_not_finite:
  assumes "\<not> list_all isfinite a"
  shows "get_outer_edges a = Inl (ValueError ''autodetected range is not finite'')"
proof (cases a)
  case Nil
  with assms show ?thesis by simp
next
  case (Cons x xs)
  from range_not_finite [OF assms [unfolded Cons]] show ?thesis
    unfolding Cons get_outer_edges_def
    by (cases "foldl dmin x xs"; cases "foldl dmax x xs") simp_all
qed

lemma outer_edges_less: "fst (outer_edges xs) < snd (outer_edges xs)"
proof (cases "xs = []")
  case True
  then show ?thesis by (simp add: outer_edges_def)
next
  case False
  then have "Min (set xs) \<le> Max (set xs)" by simp
  then show ?thesis by (auto simp: outer_edges_def)
qed

lemma outer_edges_bounds:
  assumes "x \<in> set xs"
  shows "fst (outer_edges xs) \<le> x \<and> x \<le> snd (outer_edges xs)"
proof -
  from assms have ne: "xs \<noteq> []" by auto
  have "Min (set xs) \<le> x" "x \<le> Max (set xs)" using assms by simp_all
  then show ?thesis using ne by (auto simp: outer_edges_def)
qed

lemma fold_max_less:
  "\<forall>i\<in>set idx. i < n \<Longrightarrow> a < n \<Longrightarrow> fold max idx (a::nat) < n"
  by (induction idx arbitrary: a) simp_all

lemma bincount_bounded:
  assumes "\<forall>i\<in>set idx. i < n"
  shows "bincount idx n = map (count_list idx) [0..<n]"
proof (cases "idx = []")
  case True
  then show ?thesis by (simp add: bincount_def)
next
  case False
  then obtain i where "i \<in> set idx" by (cases idx) auto
  with assms have "0 < n" by auto
  from fold_max_less [OF assms this] have "max n (Suc (fold max idx 0)) = n" by simp
  with False show ?thesis by (simp add: bincount_def)
qed


lemma sum_list_count_list:
  assumes "\<forall>i\<in>set idx. i < n"
  shows "sum_list (map (count_list idx) [0..<n]) = length idx"
proof -
  have "set idx \<subseteq> {0..<n}" using assms by auto
  then have "sum (count_list idx) {0..<n} = length idx" by (intro sum_count_set) simp_all
  then show ?thesis by (simp add: interv_sum_list_conv_sum_set_nat)
qed

lemma np_histogram_indices:
  assumes fin: "list_all isfinite a" and bins: "0 < bins"
    and fit: "float64_fits fits (finite_values a) bins"
  shows "np_histogram fits a bins =
     Inr (bincount (map (bin_index (fst (outer_edges (finite_values a))) (snd (outer_edges (finite_values a))) bins
                      (linspace (fst (outer_edges (finite_values a))) (snd (outer_edges (finite_values a))) (Suc bins)))
                    (finite_values a)) bins,
          linspace (fst (outer_edges (finite_values a))) (snd (outer_edges (finite_values a))) (Suc bins))"
proof -
  have keep: "filter (\<lambda>x. fst (outer_edges (finite_values a)) \<le> x \<and> x \<le> snd (outer_edges (finite_values a)))
                (finite_values a) = finite_values a"
    by (rule filter_True) (simp add: outer_edges_bounds)
  show ?thesis
    by (simp add: np_histogram_def get_outer_edges_finite [OF fin] split_beta Let_def keep fit)
qed

lemma np_histogram_unfit:
  assumes fin: "list_all isfinite a" and fit: "\<not> float64_fits fits (finite_values a) bins"
  shows "np_histogram fits a bins = Inl (ValueError ''Too many bins for data range'')"
  by (simp add: np_histogram_def get_outer_edges_finite [OF fin] split_beta fit)

lemma np_histogram_not_finite:
  "\<not> list_all isfinite a
   \<Longrightarrow> np_histogram fits a bins = Inl (ValueError ''autodetected range is not finite'')"
  by (simp add: np_histogram_def get_outer_edges_not_finite)

lemma np_histogram_Inr_D:
  assumes "np_histogram fits a bins = Inr r"
  shows "list_all isfinite a" and "float64_fits fits (finite_values a) bins"
proof -
  show fin: "list_all isfinite a"
    using assms np_histogram_not_finite [of a fits bins] by (cases "list_all isfinite a") simp_all
  show "float64_fits fits (finite_values a) bins"
    using assms np_histogram_unfit [OF fin, of fits bins]
    by (cases "float64_fits fits (finite_values a) bins") simp_all
qed


lemma np_histogram_sum:
  assumes fin: "list_all isfinite a" and bins: "0 < bins"
    and res: "np_histogram fits a bins = Inr (hist, edges)"
  shows "sum_list hist = length a" and "length hist = bins"
proof -
  define xs where "xs = finite_values a"
  define lo where "lo = fst (outer_edges xs)"
  define hi where "hi = snd (outer_edges xs)"
  define E where "E = linspace lo hi (Suc bins)"
  have w: "lo < hi" by (simp add: lo_def hi_def outer_edges_less)
  have lt: "\<forall>i\<in>set (map (bin_index lo hi bins E) xs). i < bins"
  proof
    fix i assume "i \<in> set (map (bin_index lo hi bins E) xs)"
    then obtain x where x: "x \<in> set xs" and i: "i = bin_index lo hi bins E x" by auto
    from outer_edges_bounds [OF x] have "lo \<le> x" "x \<le> hi" by (simp_all add: lo_def hi_def)
    from bin_index_floor [OF w bins this] bins show "i < bins" by (simp add: i E_def)
  qed
  from res have hist: "hist = bincount (map (bin_index lo hi bins E) xs) bins"
    unfolding np_histogram_indices [OF fin bins np_histogram_Inr_D(2) [OF res]] E_def lo_def hi_def xs_def by auto
  have "length a = length xs"
    using map_Fin_finite_values [OF fin] unfolding xs_def by (metis length_map)
  then show "sum_list hist = length a"
    by (simp add: hist bincount_bounded [OF lt] sum_list_count_list [OF lt])
  show "length hist = bins" by (simp add: hist bincount_bounded [OF lt])
qed

section \<open>Entries of the report\<close>

lemma numeric_entry_Inr_iff:
  "(\<exists>st. numeric_entry fits s = Inr st)
   = (list_all isfinite (dropna_numeric s)
      \<and> float64_fits fits (finite_values (dropna_numeric s)) 10)"
proof (cases "list_all isfinite (dropna_numeric s)")
  case True
  show ?thesis
  proof (cases "float64_fits fits (finite_values (dropna_numeric s)) 10")
    case fit: True
    from np_histogram_indices [OF True _ fit] show ?thesis
      by (simp add: numeric_entry_def True fit Let_def)
  next
    case fit: False
    from np_histogram_unfit [OF True fit] show ?thesis
      by (simp add: numeric_entry_def True fit)
  qed
next
  case False
  from np_histogram_not_finite [OF False, of fits 10] show ?thesis
    by (simp add: numeric_entry_def False)
qed

lemma numeric_entry_accepts:
  "(\<exists>st. numeric_entry fits (col_data c) = Inr st) = histogram_accepts fits c"
  by (simp add: numeric_entry_Inr_iff histogram_accepts_def finite_column_def)

lemma numeric_entry_Inl:
  assumes "numeric_entry fits s = Inl e"
  shows "e = ValueError ''autodetected range is not finite''
         \<or> e = ValueError ''Too many bins for data range''"
proof (cases "list_all isfinite (dropna_numeric s)")
  case True
  have "\<not> float64_fits fits (finite_values (dropna_numeric s)) 10"
    using numeric_entry_Inr_iff [of fits s] assms True by auto
  from np_histogram_unfit [OF True this] assms show ?thesis
    by (simp add: numeric_entry_def)
next
  case False
  from np_histogram_not_finite [OF False, of fits 10] assms show ?thesis
    by (simp add: numeric_entry_def)
qed

lemma numeric_entry_histogram:
  assumes "numeric_entry fits s = Inr st"
  shows "np_histogram fits (dropna_numeric s) 10 = Inr (histogram_values st, histogram_bins st)"
  using assms by (auto simp: numeric_entry_def Let_def split: sum.splits)

lemma length_dropna_numeric:
  "is_number (dtype_of s) \<Longrightarrow> length (dropna_numeric s) = count_nonnull s"
  by (cases s) (simp_all add: is_number_def)

lemma isnull_plus_count: "isnull_sum s + count_nonnull s = series_len s"
proof (cases s)
  case (IntSeries xs)
  then show ?thesis by simp
next
  case (FloatSeries xs)
  with sum_length_filter_compl [of "\<lambda>x. x = NaN" xs] show ?thesis by simp
next
  case (ObjectSeries xs)
  with sum_length_filter_compl [of "\<lambda>x. x = None" xs] show ?thesis by simp
next
  case (DatetimeSeries xs)
  with sum_length_filter_compl [of "\<lambda>x. x = None" xs] show ?thesis by simp
qed

lemma dict_get_columns:
  assumes "distinct (map col_name cs)" and "c \<in> set cs"
  shows "dict_get (map (\<lambda>c. (col_name c, g c)) cs) (col_name c) = Some (g c)"
proof -
  have "distinct (map fst (map (\<lambda>c. (col_name c, g c)) cs))" using assms(1) by (simp add: comp_def)
  moreover have "(col_name c, g c) \<in> set (map (\<lambda>c. (col_name c, g c)) cs)" using assms(2) by auto
  ultimately show ?thesis unfolding dict_get_def by (rule map_of_is_SomeI)
qed

lemma analyze_data_Inr_D:
  assumes df: "distinct (map col_name df)" and res: "analyze_data fits srt (Loaded df) = Inr rep"
  shows "rep = report_of srt df (map (\<lambda>c. (col_name c, projr (numeric_entry fits (col_data c))))
                               (select_dtypes_include_number df))"
    and "\<forall>c\<in>set (select_dtypes_include_number df). \<exists>st. numeric_entry fits (col_data c) = Inr st"
proof -
  from res obtain nstats where
    loop: "for_columns df (numeric_entry fits) (map col_name (select_dtypes_include_number df)) [] = Inr nstats"
    and rep: "rep = report_of srt df nstats"
    by (auto simp: analyze_data_Loaded [OF df] split: sum.splits)
  show ok: "\<forall>c\<in>set (select_dtypes_include_number df). \<exists>st. numeric_entry fits (col_data c) = Inr st"
    using for_columns_Inr_D [OF df select_include_subset loop] by blast
  from for_columns_Inr [OF df select_include_subset _ ok, of "[]"] distinct_select_include [OF df] loop
  show "rep = report_of srt df (map (\<lambda>c. (col_name c, projr (numeric_entry fits (col_data c))))
                               (select_dtypes_include_number df))"
    by (simp add: rep)
qed

lemma analyze_data_succeeds:
  assumes df: "distinct (map col_name df)"
    and fin: "\<forall>c\<in>set (select_dtypes_include_number df). histogram_accepts fits c"
  shows "analyze_data fits srt (Loaded df)
         = Inr (report_of srt df (map (\<lambda>c. (col_name c, projr (numeric_entry fits (col_data c))))
                                  (select_dtypes_include_number df)))"
proof -
  from fin have ok: "\<forall>c\<in>set (select_dtypes_include_number df). \<exists>st. numeric_entry fits (col_data c) = Inr st"
    by (simp add: numeric_entry_accepts)
  from for_columns_Inr [OF df select_include_subset _ ok, of "[]"] distinct_select_include [OF df]
  show ?thesis by (simp add: analyze_data_Loaded [OF df])
qed

lemma for_columns_Inl_D:
  assumes df: "distinct (map col_name df)"
  shows "set cs \<subseteq> set df \<Longrightarrow> for_columns df f (map col_name cs) d = Inl e
    \<Longrightarrow> \<exists>c\<in>set cs. f (col_data c) = Inl e"
proof (induction cs arbitrary: d)
  case Nil
  then show ?case by simp
next
  case (Cons a cs)
  from Cons.prems have a: "a \<in> set df" by simp
  show ?case
  proof (cases "f (col_data a)")
    case (Inl e0)
    with Cons.prems(2) show ?thesis by (simp add: df_getitem_member [OF df a])
  next
    case (Inr v)
    with Cons.prems(2)
    have "for_columns df f (map col_name cs) (dict_set d (col_name a) v) = Inl e"
      by (simp add: df_getitem_member [OF df a])
    from Cons.IH [OF _ this] Cons.prems(1) show ?thesis by simp
  qed
qed

lemma analyze_data_Inl_D:
  assumes df: "distinct (map col_name df)" and res: "analyze_data fits srt (Loaded df) = Inl e"
  shows "\<exists>c\<in>set (select_dtypes_include_number df). numeric_entry fits (col_data c) = Inl e"
proof -
  from res have "for_columns df (numeric_entry fits) (map col_name (select_dtypes_include_number df)) [] = Inl e"
    by (simp add: analyze_data_Loaded [OF df] split: sum.splits)
  from for_columns_Inl_D [OF df select_include_subset this] show ?thesis .
qed

lemma analyze_data_raises:
  assumes df: "distinct (map col_name df)"
    and c: "c \<in> set (select_dtypes_include_number df)" "\<not> histogram_accepts fits c"
  shows "\<exists>m. analyze_data fits srt (Loaded df) = Inl (ValueError m)
             \<and> (m = ''autodetected range is not finite'' \<or> m = ''Too many bins for data range'')"
proof (cases "analyze_data fits srt (Loaded df)")
  case (Inl e)
  from analyze_data_Inl_D [OF df Inl] obtain c' :: column
    where "numeric_entry fits (col_data c') = Inl e" by blast
  from numeric_entry_Inl [OF this] Inl show ?thesis by auto
next
  case (Inr rep)
  from analyze_data_Inr_D(2) [OF df Inr] c(1)
  have "\<exists>st. numeric_entry fits (col_data c) = Inr st" by blast
  with c(2) show ?thesis by (simp add: numeric_entry_accepts)
qed

lemma numeric_stats_lookup:
  assumes df: "distinct (map col_name df)" and res: "analyze_data fits srt (Loaded df) = Inr rep"
    and c: "c \<in> set df" "is_number (dtype_of (col_data c))"
  shows "\<exists>st. numeric_entry fits (col_data c) = Inr st \<and> dict_get (numeric_stats rep) (col_name c) = Some st"
proof -
  from c have mem: "c \<in> set (select_dtypes_include_number df)"
    by (simp add: select_dtypes_include_number_def)
  with analyze_data_Inr_D(2) [OF df res] obtain st where st: "numeric_entry fits (col_data c) = Inr st"
    by blast
  from dict_get_columns [OF distinct_select_include [OF df] mem, of "\<lambda>c. projr (numeric_entry fits (col_data c))"]
  show ?thesis by (simp add: analyze_data_Inr_D(1) [OF df res] report_of_def st)
qed

lemma example_df_wf: "wf_df example_df"
  by (simp add: wf_df_def example_df_def df_len_def)

lemma example_df_accepted:
  "\<forall>c\<in>set (select_dtypes_include_number example_df). histogram_accepts moderate_range c"
  by (simp add: example_df_def select_dtypes_include_number_def is_number_def finite_column_def
      histogram_accepts_def float64_fits_def moderate_range_def)

lemma example_df_returns:
  "\<exists>rep. analyze_data moderate_range (Abs_argsort stable_sort) (Loaded example_df) = Inr rep"
  using analyze_data_succeeds [OF _ example_df_accepted] example_df_wf by (simp add: wf_df_def)

lemma wf_df_distinct: "wf_df df \<Longrightarrow> distinct (map col_name df)"
  by (simp add: wf_df_def)

lemma wf_df_len: "wf_df df \<Longrightarrow> c \<in> set df \<Longrightarrow> series_len (col_data c) = df_len df"
  by (simp add: wf_df_def list_all_iff)

lemma report_of_simps:
  "basic_info (report_of srt df ns) =
     \<lparr> total_rows = df_len df, total_columns = length df,
       numeric_columns = length (select_dtypes_include_number df),
       categorical_columns = length (select_dtypes_exclude_number df),
       columns = map col_name df \<rparr>"
  "column_types (report_of srt df ns) = map (\<lambda>c. (col_name c, dtype_str (dtype_of (col_data c)))) df"
  "missing_values (report_of srt df ns) = map (\<lambda>c. (col_name c, isnull_sum (col_data c))) df"
  "numeric_stats (report_of srt df ns) = ns"
  "categorical_stats (report_of srt df ns) =
     map (\<lambda>c. (col_name c, categorical_entry srt (col_data c))) (select_dtypes_exclude_number df)"
  by (simp_all add: report_of_def)

lemma bincount_Nil: "bincount [] n = replicate n 0"
  by (simp add: bincount_def map_replicate_const [symmetric] del: map_replicate_const)
     (induction n, simp_all add: replicate_append_same)

lemma numeric_entry_empty:
  assumes "dropna_numeric s = []"
  shows "numeric_entry fits s = Inr empty_numeric_stat"
  by (simp add: numeric_entry_def np_histogram_def get_outer_edges_def float64_fits_def assms Let_def
      empty_numeric_stat_def nanmean_def nanmedian_def nanstd_def nanmin_def nanmax_def bincount_Nil)

lemma count_nonnull_0_numeric: "count_nonnull s = 0 \<Longrightarrow> dropna_numeric s = []"
  by (cases s) simp_all

lemma complete_report_of:
  "complete_report df (report_of srt df (map (\<lambda>c. (col_name c, g c)) (select_dtypes_include_number df)))"
  by (simp add: complete_report_def report_of_simps comp_def)



lemma upt_0_11: "[0..<11] = [0, 1, 2, 3, 4, 5, 6, 7, 8, 9, 10]"
  by (simp add: upt_conv_Cons)













lemma unique_snoc:
  "unique (xs @ [x]) = (if x \<in> set (unique xs) then unique xs else unique xs @ [x])"
  by (simp add: unique_def)

lemma set_unique: "set (unique xs) = set xs"
  by (induction xs rule: rev_induct) (auto simp: unique_snoc, simp add: unique_def)

lemma distinct_unique: "distinct (unique xs)"
  by (induction xs rule: rev_induct) (simp_all add: unique_snoc, simp add: unique_def)

lemma unique_Nil: "unique [] = []"
  by (simp add: unique_def)

lemma count_key_map:
  assumes "distinct U"
  shows "count_key (map (\<lambda>k. (k, f k)) U) x
         = (if x \<in> set U then map (\<lambda>k. (k, if k = x then Suc (f k) else f k)) U
            else map (\<lambda>k. (k, f k)) U @ [(x, 1)])"
  using assms by (induction U) auto

lemma value_count_snoc: "value_count (xs @ [x]) = count_key (value_count xs) x"
  by (simp add: value_count_def)

lemma value_count_unique:
  "value_count xs = map (\<lambda>k. (k, count_list xs k)) (unique xs)"
proof (induction xs rule: rev_induct)
  case Nil
  then show ?case by (simp add: value_count_def unique_Nil)
next
  case (snoc x xs)
  show ?case
  proof (cases "x \<in> set xs")
    case True
    then show ?thesis
      by (simp add: value_count_snoc snoc.IH count_key_map [OF distinct_unique] set_unique unique_snoc)
  next
    case False
    then have "count_list xs x = 0" by (simp add: count_list_0_iff)
    with False show ?thesis
      by (auto simp: value_count_snoc snoc.IH count_key_map [OF distinct_unique] set_unique unique_snoc)
  qed
qed

lemma np_argsort_distinct: "distinct (np_argsort srt keys)"
  using np_argsort [of srt] by (simp add: is_argsort_def)

lemma np_argsort_set: "set (np_argsort srt keys) = {0..<length keys}"
  using np_argsort [of srt] by (simp add: is_argsort_def)

lemma np_argsort_sorted: "sorted (map (\<lambda>i. keys ! i) (np_argsort srt keys))"
  using np_argsort [of srt] by (simp add: is_argsort_def)

lemma length_np_argsort: "length (np_argsort srt keys) = length keys"
  using distinct_card [OF np_argsort_distinct, of srt keys] by (simp add: np_argsort_set)

lemma sort_values_descending_eq:
  "sort_values_descending srt kvs
   = rev (map (\<lambda>i. rev kvs ! i) (np_argsort srt (map snd (rev kvs))))"
proof -
  define P where "P = np_argsort srt (map snd (rev kvs))"
  have lt: "i < length kvs" if "i \<in> set P" for i
    using that by (simp add: P_def np_argsort_set)
  have "kvs ! (rev [0..<length kvs] ! i) = rev kvs ! i" if "i \<in> set P" for i
  proof -
    from lt [OF that] have "length kvs - Suc i < length kvs" by simp
    with lt [OF that] show ?thesis by (simp add: rev_nth)
  qed
  then have "map (\<lambda>i. kvs ! (rev [0..<length kvs] ! i)) P = map (\<lambda>i. rev kvs ! i) P"
    by (intro map_cong [OF refl])
  then show ?thesis
    by (simp add: sort_values_descending_def Let_def rev_map P_def [symmetric] comp_def)
qed

lemma set_map_nth_perm:
  assumes "set P = {0..<length L}"
  shows "set (map (\<lambda>i. L ! i) P) = set L"
  using assms by (simp add: set_conv_nth [of L]) auto


lemma distinct_map_nth_perm:
  assumes "distinct P" and "set P = {0..<length L}" and "distinct (map f L)"
  shows "distinct (map f (map (\<lambda>i. L ! i) P))"
proof -
  have "inj_on (\<lambda>i. map f L ! i) (set P)"
    by (rule inj_on_nth [OF assms(3)]) (simp add: assms(2))
  then have "inj_on (\<lambda>i. f (L ! i)) (set P)"
    by (rule inj_on_cong [THEN iffD1, rotated]) (simp add: assms(2))
  with assms(1) show ?thesis by (simp add: distinct_map comp_def)
qed

lemma set_sort_values_descending: "set (sort_values_descending srt kvs) = set kvs"
  using set_map_nth_perm [of "np_argsort srt (map snd (rev kvs))" "rev kvs"]
  by (simp add: sort_values_descending_eq np_argsort_set)

lemma length_sort_values_descending: "length (sort_values_descending srt kvs) = length kvs"
  by (simp add: sort_values_descending_eq length_np_argsort)


lemma descending_sort_values:
  "sorted_wrt (\<lambda>a b. snd b \<le> snd a) (sort_values_descending srt kvs)"
proof -
  define P where "P = np_argsort srt (map snd (rev kvs))"
  have lt: "i < length kvs" if "i \<in> set P" for i
    using that by (simp add: P_def np_argsort_set)
  have eq: "map (\<lambda>i. map snd (rev kvs) ! i) P = map (\<lambda>i. snd (rev kvs ! i)) P"
    by (rule map_cong [OF refl]) (simp add: lt)
  have "sorted (map (\<lambda>i. snd (rev kvs ! i)) P)"
    using np_argsort_sorted [of "map snd (rev kvs)" srt] unfolding P_def [symmetric] eq .
  then have "sorted_wrt (\<lambda>a b. snd a \<le> snd b) (map (\<lambda>i. rev kvs ! i) P)"
    by (simp add: sorted_wrt_map sorted_map)
  then show ?thesis
    by (simp add: sort_values_descending_eq P_def [symmetric] sorted_wrt_rev)
qed

lemma set_value_count: "set (value_count xs) = (\<lambda>k. (k, count_list xs k)) ` set xs"
  by (simp add: value_count_unique set_unique)

lemma distinct_keys_value_count: "distinct (map fst (value_count xs))"
  by (simp add: value_count_unique comp_def distinct_unique)

lemma value_counts_empty:
  assumes "dropna_object s = []"
  shows "value_counts srt s = []"
proof -
  have "length (value_counts srt s) = 0"
    by (simp add: value_counts_def length_sort_values_descending value_count_def assms)
  then show ?thesis by simp
qed

lemma categorical_entry_empty:
  assumes "dropna_object s = []"
  shows "categorical_entry srt s = empty_categorical_stat"
  by (simp add: categorical_entry_def value_counts_empty [OF assms] head_def dict_of_def
      nunique_def unique_def assms empty_categorical_stat_def)

lemma distinct_keys_sorted:
  "distinct (map fst (sort_values_descending srt (value_count xs)))"
proof -
  have "distinct (map fst (map (\<lambda>i. rev (value_count xs) ! i)
                             (np_argsort srt (map snd (rev (value_count xs))))))"
    by (rule distinct_map_nth_perm)
       (simp_all add: np_argsort_distinct np_argsort_set rev_map [symmetric] distinct_keys_value_count)
  then show ?thesis
    by (simp add: sort_values_descending_eq rev_map [symmetric])
qed





lemma categorical_stats_lookup:
  assumes df: "distinct (map col_name df)" and res: "analyze_data fits srt (Loaded df) = Inr rep"
    and c: "c \<in> set df" "\<not> is_number (dtype_of (col_data c))"
  shows "dict_get (categorical_stats rep) (col_name c) = Some (categorical_entry srt (col_data c))"
proof -
  from c have mem: "c \<in> set (select_dtypes_exclude_number df)"
    by (simp add: select_dtypes_exclude_number_def)
  from dict_get_columns [OF distinct_select_exclude [OF df] mem, of "\<lambda>c. categorical_entry srt (col_data c)"]
  show ?thesis by (simp add: analyze_data_Inr_D(1) [OF df res] report_of_simps)
qed

lemma categorical_entry_fields:
  "value_counts_dict (categorical_entry srt s) = take 10 (value_counts srt s)"
  "labels (categorical_entry srt s) = map fst (take 10 (value_counts srt s))"
  "values' (categorical_entry srt s) = map snd (take 10 (value_counts srt s))"
  "unique_values (categorical_entry srt s) = length (value_counts srt s)"
proof -
  have "distinct (map fst (take 10 (value_counts srt s)))"
    using distinct_keys_sorted [of srt "dropna_object s"]
    by (simp add: value_counts_def take_map [symmetric] distinct_take)
  then show "value_counts_dict (categorical_entry srt s) = take 10 (value_counts srt s)"
    by (simp add: categorical_entry_def Let_def head_def dict_of_distinct)
  show "labels (categorical_entry srt s) = map fst (take 10 (value_counts srt s))"
    "values' (categorical_entry srt s) = map snd (take 10 (value_counts srt s))"
    by (simp_all add: categorical_entry_def Let_def head_def)
  show "unique_values (categorical_entry srt s) = length (value_counts srt s)"
    by (simp add: categorical_entry_def Let_def nunique_def value_counts_def
        length_sort_values_descending value_count_unique)
qed

lemma map_insort_key:
  assumes "\<forall>y\<in>set (x # ys). g (f y) = h y"
  shows "map f (insort_key h x ys) = insort_key g (f x) (map f ys)"
  using assms by (induction ys) simp_all

lemma map_sort_key:
  assumes "\<forall>y\<in>set xs. g (f y) = h y"
  shows "map f (sort_key h xs) = sort_key g (map f xs)"
  using assms
proof (induction xs)
  case Nil
  then show ?case by simp
next
  case (Cons x xs)
  have "map f (insort_key h x (sort_key h xs)) = insort_key g (f x) (map f (sort_key h xs))"
    by (rule map_insort_key) (use Cons.prems in simp)
  with Cons show ?case by simp
qed


lemma is_argsort_reversing: "is_argsort reversing_sort"
  by (auto simp: is_argsort_def reversing_sort_def sorted_sort_key)


lemma np_argsort_reversing: "np_argsort (Abs_argsort reversing_sort) = reversing_sort"
  by (simp add: Abs_argsort_inverse is_argsort_reversing)


lemma sort_values_descending_reversing:
  "sort_values_descending (Abs_argsort reversing_sort) kvs = rev (sort_key snd kvs)"
proof -
  have "map (\<lambda>i. rev kvs ! i) (sort_key (\<lambda>i. map snd (rev kvs) ! i) (rev [0..<length (rev kvs)]))
        = sort_key snd (map (\<lambda>i. rev kvs ! i) (rev [0..<length (rev kvs)]))"
    by (rule map_sort_key) simp
  moreover have "map (\<lambda>i. rev kvs ! i) (rev [0..<length (rev kvs)]) = kvs"
    by (simp add: rev_map [symmetric] map_nth [of "rev kvs", unfolded length_rev])
  ultimately show ?thesis
    by (simp add: sort_values_descending_eq np_argsort_reversing reversing_sort_def)
qed


section \<open>Loading a table\<close>

lemma col_name_to_frame: "map col_name (to_frame t) = map sql_name t"
  by (simp add: to_frame_def comp_def)

lemma length_to_frame: "length (to_frame t) = length t"
  by (simp add: to_frame_def)

lemma series_len_infer: "series_len (infer_series v) = sql_len v"
  by (cases v) simp_all

lemma df_len_to_frame: "df_len (to_frame t) = table_rows t"
  by (cases t) (simp_all add: df_len_def table_rows_def to_frame_def series_len_infer)

lemma wf_to_frame: "wf_table t \<Longrightarrow> wf_df (to_frame t)"
  unfolding wf_df_def wf_table_def df_len_to_frame col_name_to_frame
  by (simp add: to_frame_def list_all_iff series_len_infer)

lemma is_number_infer: "is_number (dtype_of (infer_series v)) = sql_numeric v"
  by (cases v) (auto simp: is_number_def list_all_iff)

lemma select_include_to_frame:
  "select_dtypes_include_number (to_frame t) = to_frame (filter (\<lambda>c. sql_numeric (sql_cells c)) t)"
  by (simp add: select_dtypes_include_number_def to_frame_def filter_map comp_def is_number_infer)

lemma select_exclude_to_frame:
  "select_dtypes_exclude_number (to_frame t) = to_frame (filter (\<lambda>c. \<not> sql_numeric (sql_cells c)) t)"
  by (simp add: select_dtypes_exclude_number_def to_frame_def filter_map comp_def is_number_infer)

lemma read_sql_query_Records: "read_sql_query (Records t) = Loaded (to_frame t)"
  by (simp add: read_sql_query_def)

lemma infer_series_no_rows: "sql_len v = 0 \<Longrightarrow> infer_series v = ObjectSeries []"
  by (cases v) simp_all

lemma to_frame_no_rows:
  assumes "wf_table t" and "table_rows t = 0"
  shows "to_frame t = map (\<lambda>c. \<lparr> col_name = sql_name c, col_data = ObjectSeries [] \<rparr>) t"
  unfolding to_frame_def
proof (rule map_cong [OF refl])
  fix c assume "c \<in> set t"
  with assms have "sql_len (sql_cells c) = 0" by (simp add: wf_table_def list_all_iff)
  then show "\<lparr> col_name = sql_name c, col_data = infer_series (sql_cells c) \<rparr>
             = \<lparr> col_name = sql_name c, col_data = ObjectSeries [] \<rparr>"
    by (simp add: infer_series_no_rows)
qed

section \<open>Cells of a categorical column\<close>

lemma set_dropna_cells: "set (map the (filter (\<lambda>x. x \<noteq> None) cells)) = {k. Some k \<in> set cells}"
  by (induction cells) auto

lemma count_dropna_cells:
  "count_list (map the (filter (\<lambda>x. x \<noteq> None) cells)) k = count_list cells (Some k)"
  by (induction cells) auto


section \<open>The claims\<close>

text \<open>
  C1.  For a well-formed frame with at least one row on which \<open>analyze_data\<close> returns a
  report, every numeric column has an entry in \<open>numeric_stats\<close> whose \<open>histogram_values\<close>
  has ten entries that sum to the number of non-null cells of the column.
\<close>

theorem histogram_values_sum:
  assumes "wf_df df" and "1 \<le> df_len df" and "analyze_data fits srt (Loaded df) = Inr rep"
    and "c \<in> set df" and "is_number (dtype_of (col_data c))"
  shows "\<exists>st. dict_get (numeric_stats rep) (col_name c) = Some st
           \<and> length (histogram_values st) = 10
           \<and> sum_list (histogram_values st) = count_nonnull (col_data c)"
proof -
  from assms(1) have df: "distinct (map col_name df)" by (simp add: wf_df_def)
  from numeric_stats_lookup [OF df assms(3,4,5)] obtain st
    where st: "numeric_entry fits (col_data c) = Inr st"
      and get: "dict_get (numeric_stats rep) (col_name c) = Some st" by blast
  from st have fin: "list_all isfinite (dropna_numeric (col_data c))"
    using numeric_entry_Inr_iff [of fits "col_data c"] by auto
  from np_histogram_sum [OF fin _ numeric_entry_histogram [OF st]] get
  show ?thesis by (simp add: length_dropna_numeric [OF assms(5)])
qed

theorem histogram_values_sum_witness:
  "wf_df example_df \<and> 1 \<le> df_len example_df
   \<and> (\<exists>rep. analyze_data moderate_range (Abs_argsort stable_sort) (Loaded example_df) = Inr rep
        \<and> (\<exists>st. dict_get (numeric_stats rep) ''age'' = Some st
              \<and> length (histogram_values st) = 10
              \<and> sum_list (histogram_values st) = 4))"
proof -
  from example_df_returns obtain rep
    where rep: "analyze_data moderate_range (Abs_argsort stable_sort) (Loaded example_df) = Inr rep" ..
  have len: "1 \<le> df_len example_df" by (simp add: example_df_def df_len_def)
  have mem: "\<lparr> col_name = ''age'', col_data = FloatSeries [Fin 20, Fin 30, Fin 30, Fin 40, NaN] \<rparr>
             \<in> set example_df" by (simp add: example_df_def)
  have num: "is_number (dtype_of (col_data \<lparr> col_name = ''age'', col_data = FloatSeries [Fin 20, Fin 30, Fin 30, Fin 40, NaN] \<rparr>))"
    by (simp add: is_number_def)
  have cnt: "count_nonnull (FloatSeries [Fin 20, Fin 30, Fin 30, Fin 40, NaN]) = 4" by simp
  from histogram_values_sum [OF example_df_wf len rep mem num] rep example_df_wf len
  show ?thesis by (simp only: cnt column.simps) blast
qed



text \<open>
  C3.  A string column of eighteen distinct values in which only \<open>k16\<close> and \<open>k17\<close>
  occur twice, \<open>k16\<close> first.  With a sort that keeps the promise of \<open>argsort\<close> and
  turns equal keys round, the ranking starts with \<open>k17\<close> and then \<open>k16\<close>: equal counts
  are not in the order of first occurrence.
\<close>

theorem tie_order_counterexample:
  "wf_df tie_df
   \<and> is_argsort reversing_sort
   \<and> (\<exists>rep cs. analyze_data moderate_range (Abs_argsort reversing_sort) (Loaded tie_df) = Inr rep
         \<and> dict_get (categorical_stats rep) ''dept'' = Some cs
         \<and> take 2 (labels cs) = [''k17'', ''k16'']
         \<and> take 2 (values' cs) = [2, 2])"
proof -
  define cells where "cells = [Some ''k00'', Some ''k01'', Some ''k02'', Some ''k03'', Some ''k04'',
                                 Some ''k05'', Some ''k06'', Some ''k07'', Some ''k08'', Some ''k09'',
                                 Some ''k10'', Some ''k11'', Some ''k12'', Some ''k13'', Some ''k14'',
                                 Some ''k15'', Some ''k16'', Some ''k17'', Some ''k16'', Some ''k17'']"
  define c where "c = \<lparr> col_name = ''dept'', col_data = ObjectSeries cells \<rparr>"
  have tie: "tie_df = [c]" by (simp add: tie_df_def c_def cells_def)
  have wf: "wf_df tie_df" by (simp add: wf_df_def tie c_def df_len_def)
  have "\<exists>rep. analyze_data moderate_range (Abs_argsort reversing_sort) (Loaded tie_df) = Inr rep"
    using analyze_data_succeeds [of tie_df moderate_range "Abs_argsort reversing_sort"]
    by (simp add: tie c_def select_dtypes_include_number_def is_number_def)
  then obtain rep
    where rep: "analyze_data moderate_range (Abs_argsort reversing_sort) (Loaded tie_df) = Inr rep" ..
  have mem: "c \<in> set tie_df" by (simp add: tie)
  have cat: "\<not> is_number (dtype_of (col_data c))" by (simp add: is_number_def c_def)
  have get: "dict_get (categorical_stats rep) ''dept''
             = Some (categorical_entry (Abs_argsort reversing_sort) (col_data c))"
    using categorical_stats_lookup [OF wf_df_distinct [OF wf] rep mem cat] by (simp add: c_def)
  have dn: "dropna_object (col_data c)
            = [''k00'', ''k01'', ''k02'', ''k03'', ''k04'', ''k05'', ''k06'', ''k07'', ''k08'', ''k09'',
               ''k10'', ''k11'', ''k12'', ''k13'', ''k14'', ''k15'', ''k16'', ''k17'', ''k16'', ''k17'']"
    by (simp add: c_def cells_def)
  have vc: "value_count [''k00'', ''k01'', ''k02'', ''k03'', ''k04'', ''k05'', ''k06'', ''k07'', ''k08'', ''k09'',
               ''k10'', ''k11'', ''k12'', ''k13'', ''k14'', ''k15'', ''k16'', ''k17'', ''k16'', ''k17'']
            = [(''k00'', 1), (''k01'', 1), (''k02'', 1), (''k03'', 1), (''k04'', 1), (''k05'', 1),
               (''k06'', 1), (''k07'', 1), (''k08'', 1), (''k09'', 1), (''k10'', 1), (''k11'', 1),
               (''k12'', 1), (''k13'', 1), (''k14'', 1), (''k15'', 1), (''k16'', 2), (''k17'', 2)]"
    by (simp add: value_count_def)
  have sv: "sort_values_descending (Abs_argsort reversing_sort)
              [(''k00'', 1::nat), (''k01'', 1), (''k02'', 1), (''k03'', 1), (''k04'', 1), (''k05'', 1),
               (''k06'', 1), (''k07'', 1), (''k08'', 1), (''k09'', 1), (''k10'', 1), (''k11'', 1),
               (''k12'', 1), (''k13'', 1), (''k14'', 1), (''k15'', 1), (''k16'', 2), (''k17'', 2)]
            = [(''k17'', 2), (''k16'', 2), (''k15'', 1), (''k14'', 1), (''k13'', 1), (''k12'', 1),
               (''k11'', 1), (''k10'', 1), (''k09'', 1), (''k08'', 1), (''k07'', 1), (''k06'', 1),
               (''k05'', 1), (''k04'', 1), (''k03'', 1), (''k02'', 1), (''k01'', 1), (''k00'', 1)]"
    by (simp add: sort_values_descending_reversing)
  have vcs: "value_counts (Abs_argsort reversing_sort) (col_data c)
            = [(''k17'', 2), (''k16'', 2), (''k15'', 1), (''k14'', 1), (''k13'', 1), (''k12'', 1),
               (''k11'', 1), (''k10'', 1), (''k09'', 1), (''k08'', 1), (''k07'', 1), (''k06'', 1),
               (''k05'', 1), (''k04'', 1), (''k03'', 1), (''k02'', 1), (''k01'', 1), (''k00'', 1)]"
    by (simp only: value_counts_def dn vc sv)
  have "take 2 (labels (categorical_entry (Abs_argsort reversing_sort) (col_data c))) = [''k17'', ''k16'']"
    "take 2 (values' (categorical_entry (Abs_argsort reversing_sort) (col_data c))) = [2, 2]"
    by (simp_all add: categorical_entry_fields vcs)
  with rep get wf is_argsort_reversing show ?thesis by blast
qed

text \<open>
  C3, as the code has it.  For a categorical column with cells \<open>cells\<close> there is a
  ranking \<open>R\<close> that pairs every distinct value of the cells that are not null with the
  number of cells holding it, in descending order of these counts; \<open>labels\<close> and
  \<open>values\<close> are the first ten values and counts of \<open>R\<close>, and \<open>unique_values\<close> is the
  length of \<open>R\<close>.  The order among values of equal count is the sort's.
\<close>

theorem categorical_ranking:
  assumes "wf_df df" and "analyze_data fits srt (Loaded df) = Inr rep"
    and "c \<in> set df"
    and "col_data c = ObjectSeries cells \<or> col_data c = DatetimeSeries cells"
  shows "\<exists>cs R.
           dict_get (categorical_stats rep) (col_name c) = Some cs
         \<and> set R = (\<lambda>k. (k, count_list cells (Some k))) ` {k. Some k \<in> set cells}
         \<and> distinct (map fst R)
         \<and> sorted_wrt (\<lambda>a b. snd b \<le> snd a) R
         \<and> labels cs = map fst (take 10 R)
         \<and> values' cs = map snd (take 10 R)
         \<and> unique_values cs = length R"
proof -
  note df = wf_df_distinct [OF assms(1)]
  from assms(4) have cat: "\<not> is_number (dtype_of (col_data c))"
    and dn: "dropna_object (col_data c) = map the (filter (\<lambda>x. x \<noteq> None) cells)"
    by (auto simp: is_number_def)
  define R where "R = value_counts srt (col_data c)"
  have "set R = (\<lambda>k. (k, count_list (dropna_object (col_data c)) k))
                  ` set (dropna_object (col_data c))"
    by (simp add: R_def value_counts_def set_sort_values_descending set_value_count)
  then have "set R = (\<lambda>k. (k, count_list cells (Some k))) ` {k. Some k \<in> set cells}"
    unfolding dn set_dropna_cells count_dropna_cells .
  moreover have "distinct (map fst R)"
    by (simp add: R_def value_counts_def distinct_keys_sorted)
  moreover have "sorted_wrt (\<lambda>a b. snd b \<le> snd a) R"
    by (simp add: R_def value_counts_def descending_sort_values)
  ultimately show ?thesis
    using categorical_stats_lookup [OF df assms(2,3) cat]
      categorical_entry_fields [of srt "col_data c"]
    unfolding R_def [symmetric] by blast
qed

theorem categorical_ranking_witness:
  "wf_df ranked_df
   \<and> (\<exists>rep cs R. analyze_data moderate_range (Abs_argsort stable_sort) (Loaded ranked_df) = Inr rep
         \<and> dict_get (categorical_stats rep) ''dept'' = Some cs
         \<and> R = [(''A'', 3), (''B'', 2), (''C'', 1)]
         \<and> labels cs = map fst (take 10 R)
         \<and> values' cs = map snd (take 10 R)
         \<and> unique_values cs = length R
         \<and> labels cs = [''A'', ''B'', ''C'']
         \<and> values' cs = [3, 2, 1]
         \<and> unique_values cs = 3)
   \<and> wf_df example_df
   \<and> (\<exists>rep cs. analyze_data moderate_range (Abs_argsort stable_sort) (Loaded example_df) = Inr rep
         \<and> dict_get (categorical_stats rep) ''dept'' = Some cs
         \<and> (labels cs = [''A'', ''B'', ''C''] \<or> labels cs = [''A'', ''C'', ''B''])
         \<and> values' cs = [3, 1, 1]
         \<and> unique_values cs = 3)"
proof -
  have first: "\<exists>rep cs R. analyze_data moderate_range (Abs_argsort stable_sort) (Loaded ranked_df) = Inr rep
         \<and> dict_get (categorical_stats rep) ''dept'' = Some cs
         \<and> R = [(''A'', 3), (''B'', 2), (''C'', 1)]
         \<and> labels cs = map fst (take 10 R)
         \<and> values' cs = map snd (take 10 R)
         \<and> unique_values cs = length R
         \<and> labels cs = [''A'', ''B'', ''C'']
         \<and> values' cs = [3, 2, 1]
         \<and> unique_values cs = 3"
  proof -
    define cells where "cells = [Some ''A'', None, Some ''B'', Some ''A'', Some ''A'', Some ''B'', Some ''C'']"
    define c where "c = \<lparr> col_name = ''dept'', col_data = ObjectSeries cells \<rparr>"
    have ranked: "ranked_df = [c]" by (simp add: ranked_df_def c_def cells_def)
    have wf: "wf_df ranked_df" by (simp add: wf_df_def ranked c_def df_len_def)
    have "\<exists>rep. analyze_data moderate_range (Abs_argsort stable_sort) (Loaded ranked_df) = Inr rep"
      using analyze_data_succeeds [of ranked_df moderate_range "Abs_argsort stable_sort"]
      by (simp add: ranked c_def select_dtypes_include_number_def is_number_def)
    then obtain rep
      where rep: "analyze_data moderate_range (Abs_argsort stable_sort) (Loaded ranked_df) = Inr rep" ..
    have mem: "c \<in> set ranked_df" by (simp add: ranked)
    have col: "col_data c = ObjectSeries cells \<or> col_data c = DatetimeSeries cells"
      by (simp add: c_def)
    have nm: "col_name c = ''dept''" by (simp add: c_def)
    obtain cs R where cs: "dict_get (categorical_stats rep) ''dept'' = Some cs"
      and set: "set R = (\<lambda>k. (k, count_list cells (Some k))) ` {k. Some k \<in> set cells}"
      and dist: "distinct (map fst R)"
      and desc: "sorted_wrt (\<lambda>a b. snd b \<le> snd a) R"
      and out: "labels cs = map fst (take 10 R)" "values' cs = map snd (take 10 R)"
        "unique_values cs = length R"
    proof -
      from categorical_ranking [OF wf rep mem col, unfolded nm]
      show ?thesis by (elim exE conjE) (rule that)
    qed
    have keys: "{k. Some k \<in> set cells} = {''A'', ''B'', ''C''}"
      by (auto simp: cells_def)
    have cnt: "count_list cells (Some ''A'') = 3" "count_list cells (Some ''B'') = 2"
      "count_list cells (Some ''C'') = 1"
      by (simp_all add: cells_def)
    have setR: "set R = {(''A'', 3), (''B'', 2), (''C'', 1)}"
      unfolding set keys by (simp add: cnt)
    have d: "distinct R" using dist by (simp add: distinct_map)
    have len: "length R = 3"
      using distinct_card [OF d] by (simp add: setR)
    then obtain x y z where R: "R = [x, y, z]"
      by (auto simp: length_Suc_conv eval_nat_numeral)
    from desc have ord: "snd y \<le> snd x" "snd z \<le> snd y" by (simp_all add: R)
    have "x \<in> set R" "y \<in> set R" "z \<in> set R" by (simp_all add: R)
    then have m: "x = (''A'', 3) \<or> x = (''B'', 2) \<or> x = (''C'', 1)"
      "y = (''A'', 3) \<or> y = (''B'', 2) \<or> y = (''C'', 1)"
      "z = (''A'', 3) \<or> z = (''B'', 2) \<or> z = (''C'', 1)"
      unfolding setR by simp_all
    from d have ne: "x \<noteq> y" "y \<noteq> z" "x \<noteq> z" by (simp_all add: R)
    from m ne ord have "x = (''A'', 3) \<and> y = (''B'', 2) \<and> z = (''C'', 1)"
      by (elim disjE) simp_all
    then have R': "R = [(''A'', 3), (''B'', 2), (''C'', 1)]" by (simp add: R)
    from out have "labels cs = [''A'', ''B'', ''C'']" "values' cs = [3, 2, 1]" "unique_values cs = 3"
      by (simp_all add: R')
    with rep cs R' out show ?thesis by blast
  qed
  have wf1: "wf_df ranked_df" by (simp add: wf_df_def ranked_df_def df_len_def)
  have second: "\<exists>rep cs. analyze_data moderate_range (Abs_argsort stable_sort) (Loaded example_df) = Inr rep
         \<and> dict_get (categorical_stats rep) ''dept'' = Some cs
         \<and> (labels cs = [''A'', ''B'', ''C''] \<or> labels cs = [''A'', ''C'', ''B''])
         \<and> values' cs = [3, 1, 1]
         \<and> unique_values cs = 3"
  proof -
    define cells where "cells = [Some ''A'', Some ''B'', Some ''A'', Some ''A'', Some ''C'']"
    define c where "c = \<lparr> col_name = ''dept'', col_data = ObjectSeries cells \<rparr>"
    from example_df_returns obtain rep
      where rep: "analyze_data moderate_range (Abs_argsort stable_sort) (Loaded example_df) = Inr rep" ..
    have mem: "c \<in> set example_df" by (simp add: example_df_def c_def cells_def)
    have col: "col_data c = ObjectSeries cells \<or> col_data c = DatetimeSeries cells"
      by (simp add: c_def)
    have nm: "col_name c = ''dept''" by (simp add: c_def)
    obtain cs R where cs: "dict_get (categorical_stats rep) ''dept'' = Some cs"
      and set: "set R = (\<lambda>k. (k, count_list cells (Some k))) ` {k. Some k \<in> set cells}"
      and dist: "distinct (map fst R)"
      and desc: "sorted_wrt (\<lambda>a b. snd b \<le> snd a) R"
      and out: "labels cs = map fst (take 10 R)" "values' cs = map snd (take 10 R)"
        "unique_values cs = length R"
    proof -
      from categorical_ranking [OF example_df_wf rep mem col, unfolded nm]
      show ?thesis by (elim exE conjE) (rule that)
    qed
    have keys: "{k. Some k \<in> set cells} = {''A'', ''B'', ''C''}"
      by (auto simp: cells_def)
    have cnt: "count_list cells (Some ''A'') = 3" "count_list cells (Some ''B'') = 1"
      "count_list cells (Some ''C'') = 1"
      by (simp_all add: cells_def)
    have setR: "set R = {(''A'', 3), (''B'', 1), (''C'', 1)}"
      unfolding set keys by (simp add: cnt)
    have d: "distinct R" using dist by (simp add: distinct_map)
    have len: "length R = 3"
      using distinct_card [OF d] by (simp add: setR)
    then obtain x y z where R: "R = [x, y, z]"
      by (auto simp: length_Suc_conv eval_nat_numeral)
    from desc have ord: "snd y \<le> snd x" "snd z \<le> snd y" by (simp_all add: R)
    have "x \<in> set R" "y \<in> set R" "z \<in> set R" by (simp_all add: R)
    then have m: "x = (''A'', 3) \<or> x = (''B'', 1) \<or> x = (''C'', 1)"
      "y = (''A'', 3) \<or> y = (''B'', 1) \<or> y = (''C'', 1)"
      "z = (''A'', 3) \<or> z = (''B'', 1) \<or> z = (''C'', 1)"
      unfolding setR by simp_all
    from d have ne: "x \<noteq> y" "y \<noteq> z" "x \<noteq> z" by (simp_all add: R)
    from m ne ord
    have "R = [(''A'', 3), (''B'', 1), (''C'', 1)] \<or> R = [(''A'', 3), (''C'', 1), (''B'', 1)]"
      unfolding R by (elim disjE) simp_all
    with out have "labels cs = [''A'', ''B'', ''C''] \<or> labels cs = [''A'', ''C'', ''B'']"
      "values' cs = [3, 1, 1]" "unique_values cs = 3"
      by auto
    with rep cs show ?thesis by blast
  qed
  from first wf1 second example_df_wf show ?thesis by (intro conjI)
qed




text \<open>
  C5.  For every column, numeric or categorical, of a well-formed frame on which
  \<open>analyze_data\<close> returns a report, the entry of \<open>missing_values\<close> for the column
  plus the number of its non-null cells is the \<open>total_rows\<close> of the report.
\<close>

theorem missing_plus_nonnull:
  assumes "wf_df df" and "analyze_data fits srt (Loaded df) = Inr rep" and "c \<in> set df"
  shows "\<exists>m. dict_get (missing_values rep) (col_name c) = Some m
           \<and> m + count_nonnull (col_data c) = total_rows (basic_info rep)"
proof -
  note df = wf_df_distinct [OF assms(1)]
  from dict_get_columns [OF df assms(3), of "\<lambda>c. isnull_sum (col_data c)"]
  have "dict_get (missing_values rep) (col_name c) = Some (isnull_sum (col_data c))"
    by (simp add: analyze_data_Inr_D(1) [OF df assms(2)] report_of_simps)
  moreover have "isnull_sum (col_data c) + count_nonnull (col_data c) = total_rows (basic_info rep)"
    by (simp add: analyze_data_Inr_D(1) [OF df assms(2)] report_of_simps isnull_plus_count
        wf_df_len [OF assms(1,3)])
  ultimately show ?thesis by blast
qed

theorem missing_plus_nonnull_witness:
  "wf_df example_df
   \<and> (\<exists>rep. analyze_data moderate_range (Abs_argsort stable_sort) (Loaded example_df) = Inr rep
        \<and> (\<exists>m. dict_get (missing_values rep) ''age'' = Some m
              \<and> m + 4 = total_rows (basic_info rep)))"
proof -
  from example_df_returns obtain rep
    where rep: "analyze_data moderate_range (Abs_argsort stable_sort) (Loaded example_df) = Inr rep" ..
  have mem: "\<lparr> col_name = ''age'', col_data = FloatSeries [Fin 20, Fin 30, Fin 30, Fin 40, NaN] \<rparr>
             \<in> set example_df" by (simp add: example_df_def)
  have cnt: "count_nonnull (FloatSeries [Fin 20, Fin 30, Fin 30, Fin 40, NaN]) = 4" by simp
  from missing_plus_nonnull [OF example_df_wf rep mem] rep example_df_wf
  show ?thesis by (simp only: cnt column.simps) blast
qed

text \<open>
  C6.  A table whose column \<open>experience\<close> is declared Integer and holds NULL only.  The
  frame pandas builds has it as an object column, so \<open>analyze_data\<close> counts no numeric
  column and lists \<open>experience\<close> among the categorical ones: the class of a column is
  not fixed by its declared type.
\<close>

theorem declared_type_counterexample:
  "wf_table null_experience_table
   \<and> (\<exists>rep. analyze_data moderate_range (Abs_argsort stable_sort)
               (read_sql_query (Records null_experience_table)) = Inr rep
        \<and> map fst (numeric_stats rep) = []
        \<and> map fst (categorical_stats rep) = [''name'', ''experience'']
        \<and> numeric_columns (basic_info rep) = 0
        \<and> categorical_columns (basic_info rep) = 2
        \<and> dict_get (column_types rep) ''experience'' = Some ''object'')"
proof -
  have wf: "wf_table null_experience_table"
    by (simp add: wf_table_def null_experience_table_def table_rows_def)
  have fr: "to_frame null_experience_table
            = [\<lparr> col_name = ''name'', col_data = ObjectSeries [Some ''ann'', Some ''bob''] \<rparr>,
               \<lparr> col_name = ''experience'', col_data = ObjectSeries [None, None] \<rparr>]"
    by (simp add: to_frame_def null_experience_table_def)
  have inc: "select_dtypes_include_number (to_frame null_experience_table) = []"
    by (simp add: fr select_dtypes_include_number_def is_number_def)
  have exc: "select_dtypes_exclude_number (to_frame null_experience_table)
             = to_frame null_experience_table"
    by (simp add: fr select_dtypes_exclude_number_def is_number_def)
  have "analyze_data moderate_range (Abs_argsort stable_sort)
          (read_sql_query (Records null_experience_table))
        = Inr (report_of (Abs_argsort stable_sort) (to_frame null_experience_table) [])"
    using analyze_data_succeeds [OF wf_df_distinct [OF wf_to_frame [OF wf]],
        of moderate_range "Abs_argsort stable_sort"]
    by (simp add: read_sql_query_Records inc)
  moreover have "map fst (categorical_stats (report_of (Abs_argsort stable_sort)
                    (to_frame null_experience_table) [])) = [''name'', ''experience'']"
    unfolding report_of_simps exc by (simp add: fr)
  moreover have "dict_get (column_types (report_of (Abs_argsort stable_sort)
                    (to_frame null_experience_table) [])) ''experience'' = Some ''object''"
    unfolding report_of_simps by (simp add: fr dict_get_def)
  moreover have "categorical_columns (basic_info (report_of (Abs_argsort stable_sort)
                    (to_frame null_experience_table) [])) = 2"
    unfolding report_of_simps exc by (simp add: fr)
  ultimately show ?thesis using wf by (simp add: report_of_simps inc)
qed

text \<open>
  C6, as the code has it.  For a well-formed table on which \<open>analyze_data\<close> returns a
  report, the keys of \<open>numeric_stats\<close> are the columns declared Integer or Float that
  hold at least one cell that is not NULL, in the order of the table, and the keys of
  \<open>categorical_stats\<close> are all the other columns: the String and DateTime columns,
  whatever their cells look like, and the Integer and Float columns that are empty or
  hold NULL only.  The two counts of \<open>basic_info\<close> are the sizes of the two classes and
  add up to \<open>total_columns\<close>, the number of columns of the table.
\<close>

theorem column_classification:
  assumes "wf_table t"
    and "analyze_data fits srt (read_sql_query (Records t)) = Inr rep"
  shows "map fst (numeric_stats rep)
           = map sql_name (filter (\<lambda>c. sql_numeric (sql_cells c)) t)
         \<and> map fst (categorical_stats rep)
           = map sql_name (filter (\<lambda>c. \<not> sql_numeric (sql_cells c)) t)
         \<and> numeric_columns (basic_info rep) = length (numeric_stats rep)
         \<and> categorical_columns (basic_info rep) = length (categorical_stats rep)
         \<and> numeric_columns (basic_info rep) + categorical_columns (basic_info rep)
             = total_columns (basic_info rep)
         \<and> total_columns (basic_info rep) = length t"
proof -
  note df = wf_df_distinct [OF wf_to_frame [OF assms(1)]]
  note rep = analyze_data_Inr_D(1) [OF df assms(2) [unfolded read_sql_query_Records]]
  have "length (filter (\<lambda>c. sql_numeric (sql_cells c)) t)
        + length (filter (\<lambda>c. \<not> sql_numeric (sql_cells c)) t) = length t"
    by (rule sum_length_filter_compl)
  then show ?thesis
    by (simp add: rep report_of_simps comp_def select_include_to_frame select_exclude_to_frame
        col_name_to_frame [unfolded comp_def] length_to_frame)
qed

theorem column_classification_witness:
  "wf_table mixed_table
   \<and> (\<exists>rep. analyze_data moderate_range (Abs_argsort stable_sort)
               (read_sql_query (Records mixed_table)) = Inr rep
        \<and> map fst (numeric_stats rep) = [''age'', ''salary'']
        \<and> map fst (categorical_stats rep) = [''code'', ''experience'']
        \<and> numeric_columns (basic_info rep) = 2
        \<and> categorical_columns (basic_info rep) = 2
        \<and> total_columns (basic_info rep) = 4)"
proof -
  have wf: "wf_table mixed_table"
    by (simp add: wf_table_def mixed_table_def table_rows_def)
  have fr: "to_frame mixed_table
            = [\<lparr> col_name = ''age'', col_data = FloatSeries [Fin 20, NaN, Fin 40] \<rparr>,
               \<lparr> col_name = ''salary'', col_data = FloatSeries [Fin 1000, Fin 2000, Fin 3000] \<rparr>,
               \<lparr> col_name = ''code'', col_data = ObjectSeries [Some ''1'', Some ''2'', Some ''3''] \<rparr>,
               \<lparr> col_name = ''experience'', col_data = ObjectSeries [None, None, None] \<rparr>]"
    by (simp add: to_frame_def mixed_table_def)
  have acc: "\<forall>c\<in>set (select_dtypes_include_number (to_frame mixed_table)).
               histogram_accepts moderate_range c"
    by (simp add: fr select_dtypes_include_number_def is_number_def finite_column_def
        histogram_accepts_def float64_fits_def moderate_range_def)
  from analyze_data_succeeds [OF wf_df_distinct [OF wf_to_frame [OF wf]] acc]
  obtain rep where rep: "analyze_data moderate_range (Abs_argsort stable_sort)
                           (read_sql_query (Records mixed_table)) = Inr rep"
    by (simp add: read_sql_query_Records)
  have num: "map sql_name (filter (\<lambda>c. sql_numeric (sql_cells c)) mixed_table) = [''age'', ''salary'']"
    by (simp add: mixed_table_def)
  have cat: "map sql_name (filter (\<lambda>c. \<not> sql_numeric (sql_cells c)) mixed_table)
             = [''code'', ''experience'']"
    by (simp add: mixed_table_def)
  have len: "length mixed_table = 4" by (simp add: mixed_table_def)
  from column_classification [OF wf rep, unfolded num cat len]
  have "map fst (numeric_stats rep) = [''age'', ''salary'']"
    "map fst (categorical_stats rep) = [''code'', ''experience'']"
    "numeric_columns (basic_info rep) = length (numeric_stats rep)"
    "categorical_columns (basic_info rep) = length (categorical_stats rep)"
    "total_columns (basic_info rep) = 4"
    by - (elim conjE, assumption)+
  moreover from this(1,2) have "length (numeric_stats rep) = 2" "length (categorical_stats rep) = 2"
    by (metis length_map length_Cons list.size(3) One_nat_def Suc_1)+
  ultimately show ?thesis using rep wf by auto
qed



text \<open>
  C8.  The table \<open>records\<close> without rows.  The frame pandas builds still has the eight
  columns, all of them object columns, and the loop of line 165 runs over columns: the
  report has \<open>total_rows = 0\<close> and no entry in \<open>numeric_stats\<close>, but
  \<open>categorical_stats\<close> holds an entry for each of the eight columns and is not the
  empty mapping.
\<close>

theorem zero_rows_counterexample:
  "wf_table empty_records \<and> table_rows empty_records = 0
   \<and> (\<exists>rep. analyze_data moderate_range (Abs_argsort stable_sort)
               (read_sql_query (Records empty_records)) = Inr rep
        \<and> total_rows (basic_info rep) = 0
        \<and> numeric_stats rep = []
        \<and> categorical_stats rep \<noteq> []
        \<and> map fst (categorical_stats rep)
            = [''id'', ''name'', ''age'', ''salary'', ''department'', ''experience'',
               ''created_at'', ''updated_at''])"
proof -
  have wf: "wf_table empty_records"
    by (simp add: wf_table_def empty_records_def table_rows_def)
  have rows: "table_rows empty_records = 0"
    by (simp add: empty_records_def table_rows_def)
  have fr: "to_frame empty_records
            = [\<lparr> col_name = ''id'', col_data = ObjectSeries [] \<rparr>,
               \<lparr> col_name = ''name'', col_data = ObjectSeries [] \<rparr>,
               \<lparr> col_name = ''age'', col_data = ObjectSeries [] \<rparr>,
               \<lparr> col_name = ''salary'', col_data = ObjectSeries [] \<rparr>,
               \<lparr> col_name = ''department'', col_data = ObjectSeries [] \<rparr>,
               \<lparr> col_name = ''experience'', col_data = ObjectSeries [] \<rparr>,
               \<lparr> col_name = ''created_at'', col_data = ObjectSeries [] \<rparr>,
               \<lparr> col_name = ''updated_at'', col_data = ObjectSeries [] \<rparr>]"
    by (simp add: to_frame_def empty_records_def)
  have inc: "select_dtypes_include_number (to_frame empty_records) = []"
    by (simp add: fr select_dtypes_include_number_def is_number_def)
  have exc: "select_dtypes_exclude_number (to_frame empty_records) = to_frame empty_records"
    by (simp add: fr select_dtypes_exclude_number_def is_number_def)
  have "analyze_data moderate_range (Abs_argsort stable_sort) (read_sql_query (Records empty_records))
        = Inr (report_of (Abs_argsort stable_sort) (to_frame empty_records) [])"
    using analyze_data_succeeds [OF wf_df_distinct [OF wf_to_frame [OF wf]],
        of moderate_range "Abs_argsort stable_sort"]
    by (simp add: read_sql_query_Records inc)
  moreover have "map fst (categorical_stats (report_of (Abs_argsort stable_sort)
                    (to_frame empty_records) []))
                 = [''id'', ''name'', ''age'', ''salary'', ''department'', ''experience'',
                    ''created_at'', ''updated_at'']"
    unfolding report_of_simps exc by (simp add: fr)
  moreover from this have "categorical_stats (report_of (Abs_argsort stable_sort)
                    (to_frame empty_records) []) \<noteq> []"
    by auto
  moreover have "total_rows (basic_info (report_of (Abs_argsort stable_sort)
                    (to_frame empty_records) [])) = 0"
    unfolding report_of_simps by (simp add: df_len_to_frame rows)
  ultimately show ?thesis using wf rows by (simp add: report_of_simps)
qed

text \<open>
  C8, as the code has it.  For a well-formed table without rows \<open>analyze_data\<close> returns
  a report with \<open>total_rows = 0\<close>; \<open>numeric_stats\<close> is the empty mapping, whatever the
  declared types, and \<open>categorical_stats\<close> holds for every column of the table the entry
  of a column without values: no labels, no counts, no unique value.  So
  \<open>categorical_stats\<close> is empty only for a table without columns.
\<close>

theorem zero_rows:
  assumes "wf_table t" and "table_rows t = 0"
  shows "\<exists>rep. analyze_data fits srt (read_sql_query (Records t)) = Inr rep
           \<and> total_rows (basic_info rep) = 0
           \<and> numeric_stats rep = []
           \<and> categorical_stats rep = map (\<lambda>c. (sql_name c, empty_categorical_stat)) t
           \<and> (categorical_stats rep = [] \<longleftrightarrow> t = [])"
proof -
  note wf = wf_to_frame [OF assms(1)]
  note df = wf_df_distinct [OF wf]
  note fr = to_frame_no_rows [OF assms]
  have inc: "select_dtypes_include_number (to_frame t) = []"
    unfolding fr by (simp add: select_dtypes_include_number_def is_number_def filter_map comp_def)
  have exc: "select_dtypes_exclude_number (to_frame t) = to_frame t"
    unfolding fr by (simp add: select_dtypes_exclude_number_def is_number_def filter_map comp_def)
  have res: "analyze_data fits srt (read_sql_query (Records t))
             = Inr (report_of srt (to_frame t) [])"
    using analyze_data_succeeds [OF df, of fits srt] by (simp add: read_sql_query_Records inc)
  have cat: "categorical_stats (report_of srt (to_frame t) [])
             = map (\<lambda>c. (sql_name c, empty_categorical_stat)) t"
    unfolding report_of_simps exc
    unfolding fr by (simp add: comp_def categorical_entry_empty)
  show ?thesis
    unfolding res
    by (intro exI [of _ "report_of srt (to_frame t) []"])
       (simp add: cat, simp add: report_of_simps df_len_to_frame assms(2))
qed

theorem zero_rows_witness:
  "wf_table empty_records \<and> table_rows empty_records = 0
   \<and> (\<exists>rep. analyze_data moderate_range (Abs_argsort stable_sort)
               (read_sql_query (Records empty_records)) = Inr rep
        \<and> total_rows (basic_info rep) = 0
        \<and> numeric_stats rep = []
        \<and> categorical_stats rep
            = [(''id'', empty_categorical_stat), (''name'', empty_categorical_stat),
               (''age'', empty_categorical_stat), (''salary'', empty_categorical_stat),
               (''department'', empty_categorical_stat), (''experience'', empty_categorical_stat),
               (''created_at'', empty_categorical_stat), (''updated_at'', empty_categorical_stat)])"
proof -
  have wf: "wf_table empty_records"
    by (simp add: wf_table_def empty_records_def table_rows_def)
  have rows: "table_rows empty_records = 0"
    by (simp add: empty_records_def table_rows_def)
  have m: "map (\<lambda>c. (sql_name c, empty_categorical_stat)) empty_records
           = [(''id'', empty_categorical_stat), (''name'', empty_categorical_stat),
               (''age'', empty_categorical_stat), (''salary'', empty_categorical_stat),
               (''department'', empty_categorical_stat), (''experience'', empty_categorical_stat),
               (''created_at'', empty_categorical_stat), (''updated_at'', empty_categorical_stat)]"
    by (simp add: empty_records_def)
  from zero_rows [OF wf rows, of moderate_range "Abs_argsort stable_sort", unfolded m] wf rows
  show ?thesis by blast
qed

text \<open>
  C9.  A table that the store hands over, with an infinite value in its Float column:
  \<open>np.histogram\<close> raises ValueError, which nothing catches, and \<open>analyze_data\<close>
  returns no report.
\<close>

theorem infinite_value_counterexample:
  "wf_table inf_table
   \<and> read_sql_query (Records inf_table)
     = Loaded [\<lparr> col_name = ''name'', col_data = ObjectSeries [Some ''ann''] \<rparr>,
               \<lparr> col_name = ''salary'', col_data = FloatSeries [PInf] \<rparr>]
   \<and> analyze_data moderate_range (Abs_argsort stable_sort) (read_sql_query (Records inf_table))
     = Inl (ValueError ''autodetected range is not finite'')"
proof -
  have wf: "wf_table inf_table"
    by (simp add: wf_table_def inf_table_def table_rows_def)
  have fr: "read_sql_query (Records inf_table)
     = Loaded [\<lparr> col_name = ''name'', col_data = ObjectSeries [Some ''ann''] \<rparr>,
               \<lparr> col_name = ''salary'', col_data = FloatSeries [PInf] \<rparr>]"
    by (simp add: read_sql_query_def to_frame_def inf_table_def)
  have "analyze_data moderate_range (Abs_argsort stable_sort) (read_sql_query (Records inf_table))
     = Inl (ValueError ''autodetected range is not finite'')"
    unfolding fr
    by (simp add: analyze_data_def Let_def
      select_dtypes_include_number_def select_dtypes_exclude_number_def is_number_def
      df_getitem_def numeric_entry_def np_histogram_def get_outer_edges_def)
  with wf fr show ?thesis by simp
qed

text \<open>
  C9, as the code has it.  The HTTP 500 error "Database query failed" is the result
  exactly when the query fails.  For a well-formed table that the store hands over, the
  result is a report that lists every column exactly when \<open>np.histogram\<close> accepts
  every numeric column: none of its non-null values is infinite, and float64 can cut
  the range of its values into ten bins.  Otherwise the result is the ValueError of
  \<open>np.histogram\<close>.  The result is an error or a report, never both.
\<close>

theorem analyze_data_failures:
  assumes "wf_table t"
  shows "analyze_data fits srt (read_sql_query Unreachable)
           = Inl (HTTPException 500 ''Database query failed'')
         \<and> analyze_data fits srt (read_sql_query (Records t))
           \<noteq> Inl (HTTPException 500 ''Database query failed'')
         \<and> ((\<forall>c\<in>set (select_dtypes_include_number (to_frame t)). histogram_accepts fits c)
              \<longrightarrow> (\<exists>rep. analyze_data fits srt (read_sql_query (Records t)) = Inr rep
                         \<and> complete_report (to_frame t) rep))
         \<and> ((\<exists>c\<in>set (select_dtypes_include_number (to_frame t)). \<not> histogram_accepts fits c)
              \<longrightarrow> (\<exists>m. analyze_data fits srt (read_sql_query (Records t)) = Inl (ValueError m)
                        \<and> (m = ''autodetected range is not finite''
                           \<or> m = ''Too many bins for data range'')))"
proof -
  note df = wf_df_distinct [OF wf_to_frame [OF assms]]
  have 1: "analyze_data fits srt (read_sql_query Unreachable)
           = Inl (HTTPException 500 ''Database query failed'')"
    by (simp add: analyze_data_def read_sql_query_def)
  have 3: "\<exists>rep. analyze_data fits srt (read_sql_query (Records t)) = Inr rep
                 \<and> complete_report (to_frame t) rep"
    if "\<forall>c\<in>set (select_dtypes_include_number (to_frame t)). histogram_accepts fits c"
    using analyze_data_succeeds [OF df that] complete_report_of
    by (simp add: read_sql_query_Records)
  have 4: "\<exists>m. analyze_data fits srt (read_sql_query (Records t)) = Inl (ValueError m)
                \<and> (m = ''autodetected range is not finite''
                   \<or> m = ''Too many bins for data range'')"
    if "\<exists>c\<in>set (select_dtypes_include_number (to_frame t)). \<not> histogram_accepts fits c"
    using that analyze_data_raises [OF df] unfolding read_sql_query_Records by blast
  have 2: "analyze_data fits srt (read_sql_query (Records t))
           \<noteq> Inl (HTTPException 500 ''Database query failed'')"
  proof (cases "\<forall>c\<in>set (select_dtypes_include_number (to_frame t)). histogram_accepts fits c")
    case True
    from 3 [OF True] show ?thesis by auto
  next
    case False
    then have "\<exists>m. analyze_data fits srt (read_sql_query (Records t)) = Inl (ValueError m)
                \<and> (m = ''autodetected range is not finite''
                   \<or> m = ''Too many bins for data range'')"
      using 4 by blast
    then show ?thesis by auto
  qed
  from 1 2 3 4 show ?thesis by blast
qed

theorem analyze_data_failures_witness:
  "analyze_data moderate_range (Abs_argsort stable_sort) (read_sql_query Unreachable)
     = Inl (HTTPException 500 ''Database query failed'')
   \<and> wf_table mixed_table
   \<and> (\<exists>rep. analyze_data moderate_range (Abs_argsort stable_sort)
               (read_sql_query (Records mixed_table)) = Inr rep
            \<and> complete_report (to_frame mixed_table) rep)
   \<and> wf_table inf_table
   \<and> (\<exists>m. analyze_data moderate_range (Abs_argsort stable_sort)
             (read_sql_query (Records inf_table)) = Inl (ValueError m))
   \<and> wf_table wide_table
   \<and> \<not> moderate_range (- (10 ^ 308)) (10 ^ 308) 10
   \<and> analyze_data moderate_range (Abs_argsort stable_sort) (read_sql_query (Records wide_table))
       = Inl (ValueError ''Too many bins for data range'')"
proof -
  have wf1: "wf_table mixed_table"
    by (simp add: wf_table_def mixed_table_def table_rows_def)
  have fr1: "to_frame mixed_table
            = [\<lparr> col_name = ''age'', col_data = FloatSeries [Fin 20, NaN, Fin 40] \<rparr>,
               \<lparr> col_name = ''salary'', col_data = FloatSeries [Fin 1000, Fin 2000, Fin 3000] \<rparr>,
               \<lparr> col_name = ''code'', col_data = ObjectSeries [Some ''1'', Some ''2'', Some ''3''] \<rparr>,
               \<lparr> col_name = ''experience'', col_data = ObjectSeries [None, None, None] \<rparr>]"
    by (simp add: to_frame_def mixed_table_def)
  have acc1: "\<forall>c\<in>set (select_dtypes_include_number (to_frame mixed_table)).
               histogram_accepts moderate_range c"
    by (simp add: fr1 select_dtypes_include_number_def is_number_def finite_column_def
        histogram_accepts_def float64_fits_def moderate_range_def)
  have wf2: "wf_table inf_table"
    by (simp add: wf_table_def inf_table_def table_rows_def)
  have fr2: "to_frame inf_table
     = [\<lparr> col_name = ''name'', col_data = ObjectSeries [Some ''ann''] \<rparr>,
        \<lparr> col_name = ''salary'', col_data = FloatSeries [PInf] \<rparr>]"
    by (simp add: to_frame_def inf_table_def)
  have rej2: "\<exists>c\<in>set (select_dtypes_include_number (to_frame inf_table)).
               \<not> histogram_accepts moderate_range c"
    by (simp add: fr2 select_dtypes_include_number_def is_number_def finite_column_def
        histogram_accepts_def)
  have wf3: "wf_table wide_table"
    by (simp add: wf_table_def wide_table_def table_rows_def)
  define big :: real where "big = 10 ^ 308"
  have big: "1000000 < big" by (simp add: big_def)
  have fr3: "to_frame wide_table
     = [\<lparr> col_name = ''salary'', col_data = FloatSeries [Fin (- big), Fin big] \<rparr>]"
    by (simp add: to_frame_def wide_table_def big_def)
  have out': "\<not> moderate_range (- big) big 10"
    using big by (simp add: moderate_range_def)
  then have out: "\<not> moderate_range (- (10 ^ 308)) (10 ^ 308) 10"
    unfolding big_def .
  have unfit: "\<not> float64_fits moderate_range (finite_values [Fin (- big), Fin big]) 10"
    using out' big by (simp add: float64_fits_def)
  have fin3: "list_all isfinite [Fin (- big), Fin big]" by simp
  have ne3: "numeric_entry moderate_range (FloatSeries [Fin (- big), Fin big])
             = Inl (ValueError ''Too many bins for data range'')"
    using np_histogram_unfit [OF fin3 unfit] by (simp add: numeric_entry_def)
  have res3: "analyze_data moderate_range (Abs_argsort stable_sort) (read_sql_query (Records wide_table))
       = Inl (ValueError ''Too many bins for data range'')"
    unfolding read_sql_query_Records fr3
    by (simp add: analyze_data_def Let_def select_dtypes_include_number_def
        select_dtypes_exclude_number_def is_number_def df_getitem_def ne3)
  from analyze_data_failures [OF wf1, of moderate_range "Abs_argsort stable_sort"] acc1
  have a: "analyze_data moderate_range (Abs_argsort stable_sort) (read_sql_query Unreachable)
            = Inl (HTTPException 500 ''Database query failed'')"
    and b: "\<exists>rep. analyze_data moderate_range (Abs_argsort stable_sort)
               (read_sql_query (Records mixed_table)) = Inr rep
            \<and> complete_report (to_frame mixed_table) rep"
    by blast+
  from analyze_data_failures [OF wf2, of moderate_range "Abs_argsort stable_sort"] rej2
  have c: "\<exists>m. analyze_data moderate_range (Abs_argsort stable_sort)
             (read_sql_query (Records inf_table)) = Inl (ValueError m)"
    by blast
  from a b c wf1 wf2 wf3 out res3 show ?thesis by blast
qed

text \<open>
  C10.  A table whose Float column \<open>bonus\<close> holds NaN only, beside a Float column with
  an infinite value.  The column \<open>bonus\<close> has no value that is not null, and
  \<open>analyze_data\<close> raises: the ValueError of the other column leaves no entry for any
  column.
\<close>

theorem all_null_beside_infinite_counterexample:
  "wf_table nan_inf_table
   \<and> read_sql_query (Records nan_inf_table)
     = Loaded [\<lparr> col_name = ''bonus'', col_data = FloatSeries [NaN, NaN] \<rparr>,
               \<lparr> col_name = ''salary'', col_data = FloatSeries [PInf, Fin 1] \<rparr>]
   \<and> count_nonnull (FloatSeries [NaN, NaN]) = 0
   \<and> analyze_data moderate_range (Abs_argsort stable_sort) (read_sql_query (Records nan_inf_table))
     = Inl (ValueError ''autodetected range is not finite'')"
proof -
  have wf: "wf_table nan_inf_table"
    by (simp add: wf_table_def nan_inf_table_def table_rows_def)
  have fr: "read_sql_query (Records nan_inf_table)
     = Loaded [\<lparr> col_name = ''bonus'', col_data = FloatSeries [NaN, NaN] \<rparr>,
               \<lparr> col_name = ''salary'', col_data = FloatSeries [PInf, Fin 1] \<rparr>]"
    by (simp add: read_sql_query_def to_frame_def nan_inf_table_def)
  have bonus: "numeric_entry moderate_range (FloatSeries [NaN, NaN]) = Inr empty_numeric_stat"
    by (rule numeric_entry_empty) simp
  have salary: "numeric_entry moderate_range (FloatSeries [PInf, Fin 1])
                = Inl (ValueError ''autodetected range is not finite'')"
    by (simp add: numeric_entry_def np_histogram_def get_outer_edges_def)
  have "analyze_data moderate_range (Abs_argsort stable_sort) (read_sql_query (Records nan_inf_table))
     = Inl (ValueError ''autodetected range is not finite'')"
    unfolding fr
    by (simp add: analyze_data_def Let_def
      select_dtypes_include_number_def select_dtypes_exclude_number_def is_number_def
      df_getitem_def bonus salary)
  with wf fr show ?thesis by simp
qed

text \<open>
  C10, as the code has it.  For a numeric column whose cells are all null the loop body
  of lines 152-161 does not raise: it yields an entry in which the histogram has ten
  zero counts over the bins of [0, 1] and the five statistics are NaN.
  \<open>analyze_data\<close> returns a report, with that entry for the column, when
  \<open>np.histogram\<close> accepts every numeric column of the frame; when it rejects one of
  them, \<open>analyze_data\<close> raises ValueError and returns no entry.
\<close>

theorem all_null_numeric_column:
  assumes "wf_df df" and "c \<in> set df" and "is_number (dtype_of (col_data c))"
    and "count_nonnull (col_data c) = 0"
  shows "\<exists>st. numeric_entry fits (col_data c) = Inr st
           \<and> histogram_values st = [0, 0, 0, 0, 0, 0, 0, 0, 0, 0]
           \<and> histogram_bins st = [0, 1 / 10, 1 / 5, 3 / 10, 2 / 5, 1 / 2, 3 / 5, 7 / 10, 4 / 5, 9 / 10, 1]
           \<and> mean st = NaN \<and> median st = NaN \<and> std st = NaN \<and> min' st = NaN \<and> max' st = NaN
           \<and> histogram_accepts fits c
           \<and> ((\<forall>c'\<in>set (select_dtypes_include_number df). histogram_accepts fits c')
                \<longrightarrow> (\<exists>rep. analyze_data fits srt (Loaded df) = Inr rep
                           \<and> dict_get (numeric_stats rep) (col_name c) = Some st))
           \<and> ((\<exists>c'\<in>set (select_dtypes_include_number df). \<not> histogram_accepts fits c')
                \<longrightarrow> (\<exists>m. analyze_data fits srt (Loaded df) = Inl (ValueError m)))"
proof -
  note df = wf_df_distinct [OF assms(1)]
  have entry: "numeric_entry fits (col_data c) = Inr empty_numeric_stat"
    by (rule numeric_entry_empty) (rule count_nonnull_0_numeric [OF assms(4)])
  then have acc: "histogram_accepts fits c"
    using numeric_entry_accepts [of fits c] by auto
  have ok: "\<exists>rep. analyze_data fits srt (Loaded df) = Inr rep
                 \<and> dict_get (numeric_stats rep) (col_name c) = Some empty_numeric_stat"
    if "\<forall>c'\<in>set (select_dtypes_include_number df). histogram_accepts fits c'"
  proof -
    from analyze_data_succeeds [OF df that] obtain rep
      where rep: "analyze_data fits srt (Loaded df) = Inr rep" by blast
    from numeric_stats_lookup [OF df rep assms(2,3)] entry
    have "dict_get (numeric_stats rep) (col_name c) = Some empty_numeric_stat" by auto
    with rep show ?thesis by blast
  qed
  have bad: "\<exists>m. analyze_data fits srt (Loaded df) = Inl (ValueError m)"
    if "\<exists>c'\<in>set (select_dtypes_include_number df). \<not> histogram_accepts fits c'"
    using that analyze_data_raises [OF df, of _ fits srt] by blast
  have bins: "histogram_bins empty_numeric_stat
              = [0, 1 / 10, 1 / 5, 3 / 10, 2 / 5, 1 / 2, 3 / 5, 7 / 10, 4 / 5, 9 / 10, 1]"
    by (simp add: empty_numeric_stat_def linspace_def upt_0_11)
  have vals: "histogram_values empty_numeric_stat = [0, 0, 0, 0, 0, 0, 0, 0, 0, 0]"
    by (simp add: empty_numeric_stat_def eval_nat_numeral)
  have stats: "mean empty_numeric_stat = NaN" "median empty_numeric_stat = NaN"
    "std empty_numeric_stat = NaN" "min' empty_numeric_stat = NaN" "max' empty_numeric_stat = NaN"
    by (simp_all add: empty_numeric_stat_def)
  from entry acc ok bad bins vals stats show ?thesis
    by (intro exI [of _ empty_numeric_stat]) blast
qed

theorem all_null_numeric_column_witness:
  "wf_table nan_table
   \<and> read_sql_query (Records nan_table)
     = Loaded [\<lparr> col_name = ''bonus'', col_data = FloatSeries [NaN, NaN] \<rparr>,
               \<lparr> col_name = ''age'', col_data = IntSeries [20, 30] \<rparr>]
   \<and> (\<exists>rep st. analyze_data moderate_range (Abs_argsort stable_sort)
                  (read_sql_query (Records nan_table)) = Inr rep
         \<and> dict_get (numeric_stats rep) ''bonus'' = Some st
         \<and> histogram_values st = [0, 0, 0, 0, 0, 0, 0, 0, 0, 0]
         \<and> histogram_bins st = [0, 1 / 10, 1 / 5, 3 / 10, 2 / 5, 1 / 2, 3 / 5, 7 / 10, 4 / 5, 9 / 10, 1]
         \<and> mean st = NaN \<and> median st = NaN \<and> std st = NaN \<and> min' st = NaN \<and> max' st = NaN)
   \<and> wf_table nan_inf_table
   \<and> (\<exists>m. analyze_data moderate_range (Abs_argsort stable_sort)
             (read_sql_query (Records nan_inf_table)) = Inl (ValueError m))"
proof -
  define c where "c = \<lparr> col_name = ''bonus'', col_data = FloatSeries [NaN, NaN] \<rparr>"
  have nm: "col_name c = ''bonus''" by (simp add: c_def)
  have num: "is_number (dtype_of (col_data c))" by (simp add: c_def is_number_def)
  have cnt: "count_nonnull (col_data c) = 0" by (simp add: c_def)
  have wf1: "wf_table nan_table"
    by (simp add: wf_table_def nan_table_def table_rows_def)
  have fr1: "to_frame nan_table = [c, \<lparr> col_name = ''age'', col_data = IntSeries [20, 30] \<rparr>]"
    by (simp add: to_frame_def nan_table_def c_def)
  have mem1: "c \<in> set (to_frame nan_table)" by (simp add: fr1)
  have acc1: "\<forall>c'\<in>set (select_dtypes_include_number (to_frame nan_table)).
                histogram_accepts moderate_range c'"
    by (simp add: fr1 c_def select_dtypes_include_number_def is_number_def finite_column_def
        histogram_accepts_def float64_fits_def moderate_range_def)
  have wf2: "wf_table nan_inf_table"
    by (simp add: wf_table_def nan_inf_table_def table_rows_def)
  have fr2: "to_frame nan_inf_table
             = [c, \<lparr> col_name = ''salary'', col_data = FloatSeries [PInf, Fin 1] \<rparr>]"
    by (simp add: to_frame_def nan_inf_table_def c_def)
  have mem2: "c \<in> set (to_frame nan_inf_table)" by (simp add: fr2)
  have rej2: "\<exists>c'\<in>set (select_dtypes_include_number (to_frame nan_inf_table)).
                \<not> histogram_accepts moderate_range c'"
    by (simp add: fr2 c_def select_dtypes_include_number_def is_number_def finite_column_def
        histogram_accepts_def)
  have first: "\<exists>rep st. analyze_data moderate_range (Abs_argsort stable_sort)
                  (read_sql_query (Records nan_table)) = Inr rep
         \<and> dict_get (numeric_stats rep) ''bonus'' = Some st
         \<and> histogram_values st = [0, 0, 0, 0, 0, 0, 0, 0, 0, 0]
         \<and> histogram_bins st = [0, 1 / 10, 1 / 5, 3 / 10, 2 / 5, 1 / 2, 3 / 5, 7 / 10, 4 / 5, 9 / 10, 1]
         \<and> mean st = NaN \<and> median st = NaN \<and> std st = NaN \<and> min' st = NaN \<and> max' st = NaN"
    using all_null_numeric_column [OF wf_to_frame [OF wf1] mem1 num cnt,
        of moderate_range "Abs_argsort stable_sort", unfolded nm] acc1
    unfolding read_sql_query_Records by blast
  have second: "\<exists>m. analyze_data moderate_range (Abs_argsort stable_sort)
             (read_sql_query (Records nan_inf_table)) = Inl (ValueError m)"
    using all_null_numeric_column [OF wf_to_frame [OF wf2] mem2 num cnt,
        of moderate_range "Abs_argsort stable_sort", unfolded nm] rej2
    unfolding read_sql_query_Records by blast
  have fr: "read_sql_query (Records nan_table)
     = Loaded [\<lparr> col_name = ''bonus'', col_data = FloatSeries [NaN, NaN] \<rparr>,
               \<lparr> col_name = ''age'', col_data = IntSeries [20, 30] \<rparr>]"
    by (simp add: read_sql_query_Records fr1 c_def)
  from wf1 fr first wf2 second show ?thesis by (intro conjI)
qed

end
